theory Spec2Isabelle
  imports Complex_Main "HOL-Library.Log_Nat"
begin

section \<open>Data model (src/types.ts)\<close>

text \<open>
  TypeScript \<open>number\<close> values that hold instants (\<open>Date.now()\<close>, milliseconds since the
  epoch) or counts are integers and are modelled as \<open>int\<close> and \<open>nat\<close>. Values that take
  part in floating-point arithmetic (prices, sentiment scores, fractions) are finite IEEE
  binary64 numbers, modelled as the rational they denote. An ISO-8601 instant string such as
  \<open>publishedAt\<close> is modelled by the millisecond instant it denotes: the strings that reach
  the functions below are written by \<open>toISOString\<close>, so they parse to a valid \<open>Date\<close>. An
  optional or \<open>undefined\<close> field is an \<open>option\<close>.
\<close>

record StockInfo =
  symbol :: string
  name :: string
  price :: rat
  change :: rat
  changePercent :: rat
  exchange :: string
  industry :: "string option"
  previousClose :: rat
  marketCap :: "rat option"

datatype SentimentCategory = bullish | bearish | neutral_impact | mixed

datatype Relevance = high | medium | low

text \<open>
  The raw article, \<open>Omit<NewsArticle, 'financialSentimentCategory' | 'sentimentScore' |
  'relevanceToPrice' | 'justification'>\<close>. Its \<open>url\<close> and \<open>source\<close> are copied from the
  upstream JSON unchecked, so they may be \<open>undefined\<close>.
\<close>

record RawNewsArticle =
  article_id :: string
  title :: string
  summary :: string
  url :: "string option"
  source :: "string option"
  publishedAt :: int

record NewsArticle = RawNewsArticle +
  financialSentimentCategory :: SentimentCategory
  sentimentScore :: rat
  relevanceToPrice :: Relevance
  justification :: string

datatype FactorType = factor_positive | factor_negative | factor_neutral | factor_mixed

record KeyFactor =
  factor_type :: FactorType
  prefix :: string
  factor_title :: string
  score :: "rat option"
  justificationSnippet :: "string option"

record StructuredNewsSummary =
  overallSentimentText :: string
  averageScoreText :: string
  keyFactors :: "KeyFactor list"
  relevanceText :: string
  hasContent :: bool

record SentimentTrendPoint =
  time :: int
  sentiment :: rat
  articles :: nat

record SentimentData =
  overall :: rat
  positive :: rat
  negative :: rat
  neutral :: rat
  summary_text :: string
  structuredSummary :: "StructuredNewsSummary option"
  trendData :: "SentimentTrendPoint list"

section \<open>Tiered response cache (src/services/stockCache.ts)\<close>

text \<open>
  \<open>CachedNewsData\<close> and \<open>CachedSentimentData\<close> are a payload \<open>data\<close> with \<open>cachedAt\<close> and
  \<open>ttl\<close>. \<open>CachedStockData\<close> spreads the \<open>StockInfo\<close> fields beside \<open>cachedAt\<close> and \<open>ttl\<close>,
  and \<open>get\<close> copies exactly those fields back out; it is modelled by the same record with
  the \<open>StockInfo\<close> as its \<open>data\<close>.
\<close>

record 'd CachedData =
  data :: 'd
  cachedAt :: int
  ttl :: int

record StockCache =
  stockCache :: "string \<rightharpoonup> StockInfo CachedData"
  newsCache :: "string \<rightharpoonup> NewsArticle list CachedData"
  sentimentCache :: "string \<rightharpoonup> SentimentData CachedData"

definition STOCK_TTL :: int where
  "STOCK_TTL = 2 * 60 * 1000"

definition NEWS_TTL :: int where
  "NEWS_TTL = 10 * 60 * 1000"

definition SENTIMENT_TTL :: int where
  "SENTIMENT_TTL = 10 * 60 * 1000"

text \<open>\<open>String.prototype.toUpperCase\<close> on the ASCII letters of a ticker symbol.\<close>

definition toUpperCase :: "string \<Rightarrow> string" where
  "toUpperCase s =
     map (\<lambda>c. if 97 \<le> (of_char c :: nat) \<and> (of_char c :: nat) \<le> 122
               then char_of (of_char c - 32 :: nat) else c) s"

text \<open>The key of the news and sentiment tiers, \<open>`${symbol.toUpperCase()}_${timeRange}`\<close>.\<close>

definition rangeKey :: "string \<Rightarrow> string \<Rightarrow> string" where
  "rangeKey symb timeRange = toUpperCase symb @ ''_'' @ timeRange"

text \<open>
  \<open>set(symbol, stockData, ttl?)\<close>: \<open>ttl || this.STOCK_TTL\<close> takes the default for a missing
  and for a zero \<open>ttl\<close>. \<open>now\<close> is the value of \<open>Date.now()\<close> at the call.
\<close>

definition StockCache_set :: "string \<Rightarrow> StockInfo \<Rightarrow> int option \<Rightarrow> int \<Rightarrow> StockCache \<Rightarrow> StockCache" where
  "StockCache_set symb stockData ttl_arg now c =
     c\<lparr>stockCache := (stockCache c)(toUpperCase symb \<mapsto>
          \<lparr>data = stockData, cachedAt = now,
           ttl = (case ttl_arg of None \<Rightarrow> STOCK_TTL
                  | Some t \<Rightarrow> if t = 0 then STOCK_TTL else t)\<rparr>)\<rparr>"

definition StockCache_get :: "string \<Rightarrow> int \<Rightarrow> StockCache \<Rightarrow> StockInfo option \<times> StockCache" where
  "StockCache_get symb now c =
     (case stockCache c (toUpperCase symb) of
        None \<Rightarrow> (None, c)
      | Some cached \<Rightarrow>
          if now - cachedAt cached > ttl cached
          then (None, c\<lparr>stockCache := (stockCache c)(toUpperCase symb := None)\<rparr>)
          else (Some (data cached), c))"

definition setNews :: "string \<Rightarrow> string \<Rightarrow> NewsArticle list \<Rightarrow> int \<Rightarrow> StockCache \<Rightarrow> StockCache" where
  "setNews symb timeRange newsData now c =
     c\<lparr>newsCache := (newsCache c)(rangeKey symb timeRange \<mapsto>
          \<lparr>data = newsData, cachedAt = now, ttl = NEWS_TTL\<rparr>)\<rparr>"

definition getNews :: "string \<Rightarrow> string \<Rightarrow> int \<Rightarrow> StockCache \<Rightarrow> NewsArticle list option \<times> StockCache" where
  "getNews symb timeRange now c =
     (case newsCache c (rangeKey symb timeRange) of
        None \<Rightarrow> (None, c)
      | Some cached \<Rightarrow>
          if now - cachedAt cached > ttl cached
          then (None, c\<lparr>newsCache := (newsCache c)(rangeKey symb timeRange := None)\<rparr>)
          else (Some (data cached), c))"

definition setSentiment :: "string \<Rightarrow> string \<Rightarrow> SentimentData \<Rightarrow> int \<Rightarrow> StockCache \<Rightarrow> StockCache" where
  "setSentiment symb timeRange sentimentData now c =
     c\<lparr>sentimentCache := (sentimentCache c)(rangeKey symb timeRange \<mapsto>
          \<lparr>data = sentimentData, cachedAt = now, ttl = SENTIMENT_TTL\<rparr>)\<rparr>"

definition getSentiment :: "string \<Rightarrow> string \<Rightarrow> int \<Rightarrow> StockCache \<Rightarrow> SentimentData option \<times> StockCache" where
  "getSentiment symb timeRange now c =
     (case sentimentCache c (rangeKey symb timeRange) of
        None \<Rightarrow> (None, c)
      | Some cached \<Rightarrow>
          if now - cachedAt cached > ttl cached
          then (None, c\<lparr>sentimentCache := (sentimentCache c)(rangeKey symb timeRange := None)\<rparr>)
          else (Some (data cached), c))"

definition clear :: "StockCache \<Rightarrow> StockCache" where
  "clear c = c\<lparr>stockCache := Map.empty, newsCache := Map.empty, sentimentCache := Map.empty\<rparr>"

definition emptyCache :: StockCache where
  "emptyCache = \<lparr>stockCache = Map.empty, newsCache = Map.empty, sentimentCache = Map.empty\<rparr>"

definition demoStock :: StockInfo where
  "demoStock = \<lparr>symbol = ''AAPL'', name = ''Apple Inc'', price = 190, change = 1,
     changePercent = 1 / 2, exchange = ''NASDAQ'', industry = Some ''Technology'',
     previousClose = 189, marketCap = None\<rparr>"

section \<open>Watchlist store adapter (src/hooks/useWatchlist.ts)\<close>

record WatchlistItem =
  item_symbol :: string
  item_name :: string

text \<open>A row handed to \<open>supabase.from('watchlist').insert\<close>.\<close>

record WatchlistRow =
  row_symbol :: string
  row_name :: string
  row_user_id :: string

text \<open>
  The hook's state: the React state \<open>watchlist\<close>, \<open>loading\<close> and \<open>user\<close> (the user's id, or
  \<open>None\<close> for \<open>null\<close>), and the list of inserts the hook has issued to the database, in order.
\<close>

record WatchlistState =
  watchlist :: "WatchlistItem list"
  loading :: bool
  user :: "string option"
  inserts :: "WatchlistRow list"

text \<open>
  \<open>addToWatchlist(symbol, name)\<close>. \<open>insert_error\<close> is the \<open>error\<close> the database answers the
  insert with (\<open>None\<close> for success); a failed insert is thrown, caught and logged, and the
  optimistic update is skipped.
\<close>

definition addToWatchlist :: "string \<Rightarrow> string \<Rightarrow> string option \<Rightarrow> WatchlistState \<Rightarrow> WatchlistState" where
  "addToWatchlist symb nm insert_error s =
     (case user s of
        None \<Rightarrow> s
      | Some uid \<Rightarrow>
          if \<exists>item \<in> set (watchlist s). item_symbol item = symb then s
          else
            let s1 = s\<lparr>inserts := inserts s @
                       [\<lparr>row_symbol = symb, row_name = nm, row_user_id = uid\<rparr>]\<rparr>
            in (case insert_error of
                  Some err \<Rightarrow> s1
                | None \<Rightarrow> s1\<lparr>watchlist :=
                    \<lparr>item_symbol = symb, item_name = nm\<rparr> # watchlist s1\<rparr>))"

text \<open>
  The second variant of the hook asks \<open>supabase.auth.getUser()\<close> for the user at each call
  (\<open>current_user\<close>) and, after a successful insert, re-fetches the list instead of updating
  it optimistically. \<open>fetched\<close> is what \<open>fetchWatchlist\<close> then reads: \<open>Inl\<close> a query error
  (logged, list kept), \<open>Inr None\<close> no signed-in user any more (list cleared), \<open>Inr (Some rows)\<close>
  the rows of the user.
\<close>

definition fetchWatchlist :: "(string + WatchlistItem list option) \<Rightarrow> WatchlistState \<Rightarrow> WatchlistState" where
  "fetchWatchlist fetched s =
     (case fetched of
        Inl err \<Rightarrow> s\<lparr>loading := False\<rparr>
      | Inr None \<Rightarrow> s\<lparr>watchlist := [], loading := False\<rparr>
      | Inr (Some rows) \<Rightarrow> s\<lparr>watchlist := rows, loading := False\<rparr>)"

definition addToWatchlist_refetch ::
  "string option \<Rightarrow> string \<Rightarrow> string \<Rightarrow> string option \<Rightarrow>
   (string + WatchlistItem list option) \<Rightarrow> WatchlistState \<Rightarrow> WatchlistState" where
  "addToWatchlist_refetch current_user symb nm insert_error fetched s =
     (case current_user of
        None \<Rightarrow> s
      | Some uid \<Rightarrow>
          if \<exists>item \<in> set (watchlist s). item_symbol item = symb then s
          else
            let s1 = s\<lparr>inserts := inserts s @
                       [\<lparr>row_symbol = symb, row_name = nm, row_user_id = uid\<rparr>]\<rparr>
            in (case insert_error of
                  Some err \<Rightarrow> s1
                | None \<Rightarrow> fetchWatchlist fetched s1))"

definition demoWatchlist :: WatchlistState where
  "demoWatchlist = \<lparr>watchlist = [\<lparr>item_symbol = ''AAPL'', item_name = ''Apple Inc''\<rparr>,
       \<lparr>item_symbol = ''MSFT'', item_name = ''Microsoft''\<rparr>],
     loading = False, user = Some ''user-1'', inserts = []\<rparr>"

section \<open>Retrying fetch wrapper (apiService, \<open>fetchWithRetry\<close>)\<close>

text \<open>
  A value thrown or rejected with: an \<open>Error\<close> instance with its message, or any other value
  with its \<open>String(v)\<close> rendering.
\<close>

datatype thrown = Error string | NonError string

text \<open>\<open>if (error instanceof Error) throw error; throw new Error(String(error))\<close>\<close>

fun asError :: "thrown \<Rightarrow> thrown" where
  "asError (Error m) = Error m"
| "asError (NonError v) = Error v"

text \<open>
  What one invocation of \<open>fetch(url, options)\<close> leads to inside the \<open>try\<close> block:
  \<^item> \<open>Rejected e\<close>: \<open>fetch\<close> rejects with \<open>e\<close> (a network failure);
  \<^item> \<open>NotOk status statusText body\<close>: a response with \<open>ok = false\<close>; \<open>body\<close> is what
    \<open>await response.text()\<close> gives, \<open>Inl\<close> when that rejects;
  \<^item> \<open>Ok j\<close>: a response with \<open>ok = true\<close>; \<open>j\<close> is how the promise \<open>response.json()\<close>
    settles. It is returned without \<open>await\<close>, so its rejection leaves the function without
    reaching the \<open>catch\<close>.
\<close>

datatype 'a response =
    Rejected thrown
  | NotOk string string "thrown + string"
  | Ok "thrown + 'a"

text \<open>The outcome of the \<open>try\<close> block: \<open>Inl\<close> what the \<open>catch\<close> receives, \<open>Inr\<close> what is returned.\<close>

fun attempt :: "'a response \<Rightarrow> thrown + (thrown + 'a)" where
  "attempt (Rejected e) = Inl e"
| "attempt (NotOk status statusText (Inl e)) = Inl e"
| "attempt (NotOk status statusText (Inr body)) =
     Inl (Error (''HTTP error! status: '' @ status @ '', statusText: '' @ statusText
                 @ '', body: '' @ body))"
| "attempt (Ok j) = Inr j"

text \<open>What the wrapper does to the outside, in order.\<close>

datatype io = Fetch | Sleep int

definition MAX_RETRIES :: int where
  "MAX_RETRIES = 3"

definition RETRY_DELAY :: int where
  "RETRY_DELAY = 1000"

text \<open>
  \<open>fetchWithRetry(url, options, retries, delay)\<close>. \<open>fetch k\<close> is the response to the \<open>k\<close>-th
  invocation of the target (counted from 0 over the whole call), \<open>k\<close> the number of
  invocations made so far and \<open>trace\<close> the effects so far. The result is how the returned
  promise settles (\<open>Inl\<close> rejected), with the final count and trace; \<open>None\<close> when the recursion
  never ends (\<open>retries === 0\<close> is never reached from a negative \<open>retries\<close> while every attempt
  fails). Doubling the delay is exact in binary64 short of overflow.
\<close>

partial_function (option) fetchWithRetry ::
  "(nat \<Rightarrow> 'a response) \<Rightarrow> int \<Rightarrow> int \<Rightarrow> nat \<Rightarrow> io list
     \<Rightarrow> ((thrown + 'a) \<times> nat \<times> io list) option" where
  "fetchWithRetry fetch retries delay k trace =
     (case attempt (fetch k) of
        Inr j \<Rightarrow> Some (j, Suc k, trace @ [Fetch])
      | Inl e \<Rightarrow>
          if retries = 0 then Some (Inl (asError e), Suc k, trace @ [Fetch])
          else fetchWithRetry fetch (retries - 1) (delay * 2) (Suc k)
                 (trace @ [Fetch, Sleep delay]))"

text \<open>A target fails when the attempt ends in the \<open>catch\<close> block.\<close>

definition fails :: "'a response \<Rightarrow> bool" where
  "fails r = (case attempt r of Inl e \<Rightarrow> True | Inr j \<Rightarrow> False)"

definition failure :: "'a response \<Rightarrow> thrown" where
  "failure r = (case attempt r of Inl e \<Rightarrow> e | Inr j \<Rightarrow> Error [])"

section \<open>Generic cache and configuration (apiService)\<close>

text \<open>
  \<open>cache\<close> is a \<open>Map<string, { data: any; timestamp: number }>\<close>. Each function reads and
  writes only keys of its own prefix (\<open>search_\<close>, \<open>candles_\<close>, \<open>price_profile_\<close>, \<open>raw_news_\<close>,
  \<open>sentiment_\<close>), so the model gives each function the part of the map that holds its own
  kind of \<open>data\<close>.
\<close>

record 'd CacheItem =
  cdata :: 'd
  timestamp :: int

definition CACHE_DURATION :: int where
  "CACHE_DURATION = 5 * 60 * 1000"

definition getCachedData :: "(string \<rightharpoonup> 'd CacheItem) \<Rightarrow> int \<Rightarrow> string \<Rightarrow> 'd option" where
  "getCachedData cache now key =
     (case cache key of
        None \<Rightarrow> None
      | Some cached \<Rightarrow> if now - timestamp cached < CACHE_DURATION then Some (cdata cached) else None)"

definition setCachedData :: "(string \<rightharpoonup> 'd CacheItem) \<Rightarrow> int \<Rightarrow> string \<Rightarrow> 'd \<Rightarrow> (string \<rightharpoonup> 'd CacheItem)" where
  "setCachedData cache now key d = cache(key \<mapsto> \<lparr>cdata = d, timestamp = now\<rparr>)"

text \<open>
  \<open>SUPABASE_ANON_KEY\<close> is a string or \<open>undefined\<close>; \<open>!SUPABASE_ANON_KEY\<close> holds for
  \<open>undefined\<close> and for the empty string.
\<close>

definition configured :: "string option \<Rightarrow> bool" where
  "configured key = (case key of None \<Rightarrow> False | Some k \<Rightarrow> k \<noteq> [])"

section \<open>News fetch (apiService, \<open>getNewsArticles\<close>)\<close>

text \<open>
  An element of the upstream \<open>company-news\<close> array, of type \<open>any\<close>: every field may be
  missing. \<open>item_id\<close> is \<open>article.id?.toString()\<close>; \<open>datetime\<close> is in seconds.
\<close>

record FinnhubNewsItem =
  item_id :: "string option"
  headline :: "string option"
  item_summary :: "string option"
  item_url :: "string option"
  item_source :: "string option"
  datetime :: "int option"

text \<open>The largest time value of a \<open>Date\<close>; \<open>toISOString\<close> throws a \<open>RangeError\<close> beyond it.\<close>

definition MAX_TIME :: int where
  "MAX_TIME = 8640000000000000"

text \<open>\<open>x || ''\<close> for an optional string.\<close>

definition orEmpty :: "string option \<Rightarrow> string" where
  "orEmpty x = (case x of None \<Rightarrow> [] | Some v \<Rightarrow> v)"

text \<open>Truthiness of an optional string: defined and not empty.\<close>

definition truthy :: "string option \<Rightarrow> bool" where
  "truthy x = (case x of None \<Rightarrow> False | Some v \<Rightarrow> v \<noteq> [])"

text \<open>
  The body of \<open>newsData.map\<close>. \<open>fresh_id\<close> stands for
  \<open>Date.now().toString() + Math.random()\<close>. \<open>None\<close> is a thrown exception: a \<open>TypeError\<close> for
  a \<open>null\<close> element, a \<open>RangeError\<close> from \<open>toISOString\<close> on an invalid date.
\<close>

definition toArticle :: "int \<Rightarrow> string \<Rightarrow> FinnhubNewsItem option \<Rightarrow> RawNewsArticle option" where
  "toArticle now fresh_id a =
     (case a of
        None \<Rightarrow> None
      | Some item \<Rightarrow>
          (case (case datetime item of
                   None \<Rightarrow> Some now
                 | Some t \<Rightarrow> if t = 0 then Some now
                            else if \<bar>t * 1000\<bar> \<le> MAX_TIME then Some (t * 1000) else None) of
             None \<Rightarrow> None
           | Some published \<Rightarrow>
               Some \<lparr>article_id = (if truthy (item_id item) then orEmpty (item_id item) else fresh_id),
                     title = orEmpty (headline item),
                     summary = orEmpty (item_summary item),
                     url = item_url item,
                     source = item_source item,
                     publishedAt = published\<rparr>))"

definition mapArticles :: "int \<Rightarrow> (nat \<Rightarrow> string) \<Rightarrow> FinnhubNewsItem option list \<Rightarrow> RawNewsArticle list option" where
  "mapArticles now gen newsData =
     those (map (\<lambda>(i, a). toArticle now (gen i) a) (zip [0..<length newsData] newsData))"

text \<open>
  \<open>.filter(title && summary && url).sort(newest first).slice(0, 10)\<close>; \<open>Array.prototype.sort\<close>
  is stable, as \<open>sort_key\<close> is.
\<close>

definition filterArticles :: "RawNewsArticle list \<Rightarrow> RawNewsArticle list" where
  "filterArticles as =
     take 10 (sort_key (\<lambda>a. - publishedAt a)
       (filter (\<lambda>a. title a \<noteq> [] \<and> summary a \<noteq> [] \<and> truthy (url a)) as))"

text \<open>
  \<open>getNewsArticles(symbol, timeRange)\<close>. \<open>now\<close> is the time at entry, \<open>now2\<close> the time when the
  answer is cached; \<open>fetched\<close> is how \<open>await queueRequest(() => fetchWithRetry(...))\<close> settles:
  \<open>Inl\<close> rejected, \<open>Inr None\<close> a value that is not an array, \<open>Inr (Some newsData)\<close> an array.
  The result is the value the promise resolves with (it never rejects) and the cache after.
\<close>

definition getNewsArticles ::
  "string option \<Rightarrow> (string \<rightharpoonup> RawNewsArticle list CacheItem) \<Rightarrow> int \<Rightarrow> int \<Rightarrow> string \<Rightarrow> string
     \<Rightarrow> (thrown + FinnhubNewsItem option list option) \<Rightarrow> (nat \<Rightarrow> string)
     \<Rightarrow> RawNewsArticle list \<times> (string \<rightharpoonup> RawNewsArticle list CacheItem)" where
  "getNewsArticles key cache now now2 symb timeRange fetched gen =
     (if \<not> configured key then ([], cache)
      else
        (case getCachedData cache now (''raw_news_'' @ symb @ ''_'' @ timeRange) of
           Some cached \<Rightarrow> (cached, cache)
         | None \<Rightarrow>
             (case fetched of
                Inl err \<Rightarrow> ([], cache)
              | Inr None \<Rightarrow> ([], cache)
              | Inr (Some newsData) \<Rightarrow>
                  (case mapArticles now2 gen newsData of
                     None \<Rightarrow> ([], cache)
                   | Some as \<Rightarrow>
                       (filterArticles as,
                        setCachedData cache now2 (''raw_news_'' @ symb @ ''_'' @ timeRange)
                          (filterArticles as))))))"

text \<open>
  A history of calls since the module was loaded: each call with its symbol, time range,
  the two clock readings, the settled fetch and the generated ids. The results in order.
\<close>

fun getNewsArticles_calls ::
  "string option \<Rightarrow> (string \<rightharpoonup> RawNewsArticle list CacheItem)
     \<Rightarrow> (string \<times> string \<times> int \<times> int \<times> (thrown + FinnhubNewsItem option list option) \<times> (nat \<Rightarrow> string)) list
     \<Rightarrow> RawNewsArticle list list" where
  "getNewsArticles_calls key cache [] = []"
| "getNewsArticles_calls key cache ((symb, timeRange, now, now2, fetched, gen) # calls) =
     fst (getNewsArticles key cache now now2 symb timeRange fetched gen) #
     getNewsArticles_calls key
       (snd (getNewsArticles key cache now now2 symb timeRange fetched gen)) calls"

text \<open>What C10 asks of a returned list.\<close>

definition newsListOk :: "RawNewsArticle list \<Rightarrow> bool" where
  "newsListOk as =
     (length as \<le> 10
      \<and> list_all (\<lambda>a. title a \<noteq> [] \<and> summary a \<noteq> [] \<and> truthy (url a)) as
      \<and> sorted_wrt (\<lambda>a b. publishedAt a \<ge> publishedAt b) as)"

definition demoItem :: "string \<Rightarrow> int \<Rightarrow> FinnhubNewsItem option" where
  "demoItem h t = Some \<lparr>item_id = Some h, headline = Some h, item_summary = Some ''text'',
     item_url = Some ''https://example.com'', item_source = Some ''wire'', datetime = Some t\<rparr>"

section \<open>LLM analysis call (apiService, \<open>analyzeNewsWithGemini\<close>)\<close>

text \<open>The raw article spread into an analyzed one with the default fields.\<close>

definition defaulted :: "string \<Rightarrow> RawNewsArticle \<Rightarrow> NewsArticle" where
  "defaulted j a = RawNewsArticle.extend a
     (NewsArticle.fields neutral_impact 0 low j)"

text \<open>\<open>error instanceof Error ? error.message : 'Unknown error'\<close>\<close>

fun errorMessage :: "thrown \<Rightarrow> string" where
  "errorMessage (Error m) = m"
| "errorMessage (NonError v) = ''Unknown error''"

text \<open>
  \<open>analyzeNewsWithGemini(articles)\<close>. \<open>call\<close> is how
  \<open>await queueRequest(() => fetchWithRetry(GEMINI_FUNCTION_URL, ...))\<close> settles, \<open>Inl\<close> when
  it rejects (\<open>fetchWithRetry\<close> has used up its retries, or the body was not JSON). The
  result is how the returned promise settles; the function has no path that rejects.
\<close>

definition analyzeNewsWithGemini ::
  "string option \<Rightarrow> RawNewsArticle list \<Rightarrow> (thrown + NewsArticle list) \<Rightarrow> thrown + NewsArticle list" where
  "analyzeNewsWithGemini key as call =
     (if \<not> configured key
      then Inr (map (defaulted ''Sentiment analysis skipped due to configuration error.'') as)
      else if as = [] then Inr []
      else
        (case call of
           Inr analyzedArticles \<Rightarrow> Inr analyzedArticles
         | Inl err \<Rightarrow>
             Inr (map (defaulted (''Error analyzing sentiment: '' @ errorMessage err @ ''.'')) as)))"

definition demoRaw :: "string \<Rightarrow> int \<Rightarrow> RawNewsArticle" where
  "demoRaw t p = \<lparr>article_id = t, title = t, summary = ''text'', url = Some ''https://example.com'',
     source = Some ''wire'', publishedAt = p\<rparr>"

text \<open>Every list held in the news part of the generic cache is one C10 accepts.\<close>

definition cacheOk :: "(string \<rightharpoonup> RawNewsArticle list CacheItem) \<Rightarrow> bool" where
  "cacheOk cache = (\<forall>k c. cache k = Some c \<longrightarrow> newsListOk (cdata c))"

definition demoCalls ::
  "(string \<times> string \<times> int \<times> int \<times> (thrown + FinnhubNewsItem option list option) \<times> (nat \<Rightarrow> string)) list" where
  "demoCalls =
     [(''AAPL'', ''24h'', 1000, 1500,
       Inr (Some [demoItem ''a'' 100, demoItem [] 300, demoItem ''c'' 200]), (\<lambda>i. ''g'')),
      (''AAPL'', ''24h'', 2000, 2500, Inl (Error ''x''), (\<lambda>i. ''g''))]"

section \<open>Rate-limited request queue (apiService, \<open>queueRequest\<close> and \<open>processQueue\<close>)\<close>

text \<open>
  The module state \<open>REQUEST_QUEUE\<close>, \<open>requestsThisSecond\<close>, \<open>lastRequestTime\<close> and
  \<open>isProcessingQueue\<close>, together with what the event loop holds for the queue: the pending
  \<open>setTimeout(processQueue, 1000)\<close> timers (by the time they are due) and the requests that
  \<open>processQueue\<close> has called and is awaiting. Two logs record what is observed: \<open>started\<close>
  lists each request with the clock reading at which \<open>processQueue\<close> called it, oldest first;
  \<open>resets\<close> lists the values \<open>lastRequestTime\<close> has had, newest first. A request is identified
  by a value of type \<open>'a\<close>.
\<close>

record 'a QueueState =
  REQUEST_QUEUE :: "'a list"
  requestsThisSecond :: nat
  lastRequestTime :: int
  isProcessingQueue :: bool
  timers :: "int list"
  awaited :: "'a list"
  started :: "('a \<times> int) list"
  resets :: "int list"

definition MAX_REQUESTS_PER_SECOND :: nat where
  "MAX_REQUESTS_PER_SECOND = 30"

text \<open>The state when the module is loaded at time \<open>t0\<close>.\<close>

definition initQueue :: "int \<Rightarrow> 'a QueueState" where
  "initQueue t0 = \<lparr>REQUEST_QUEUE = [], requestsThisSecond = 0, lastRequestTime = t0,
     isProcessingQueue = False, timers = [], awaited = [], started = [], resets = [t0]\<rparr>"

definition resetRequestCount :: "int \<Rightarrow> 'a QueueState \<Rightarrow> 'a QueueState" where
  "resetRequestCount now s =
     (if now - lastRequestTime s \<ge> 1000
      then s\<lparr>requestsThisSecond := 0, lastRequestTime := now, resets := now # resets s\<rparr>
      else s)"

text \<open>
  \<open>processQueue\<close> up to its \<open>await\<close>: everything it does in one turn of the event loop, at
  clock reading \<open>now\<close>. Calling \<open>request()\<close> starts the request; the part after the \<open>await\<close>
  runs when the request settles (\<open>step\<close> below).
\<close>

definition processQueue :: "int \<Rightarrow> 'a QueueState \<Rightarrow> 'a QueueState" where
  "processQueue now s =
     (if REQUEST_QUEUE s = [] then s\<lparr>isProcessingQueue := False\<rparr>
      else
        let s1 = resetRequestCount now (s\<lparr>isProcessingQueue := True\<rparr>) in
        if requestsThisSecond s1 \<ge> MAX_REQUESTS_PER_SECOND
        then s1\<lparr>isProcessingQueue := False, timers := timers s1 @ [now + 1000]\<rparr>
        else
          (case REQUEST_QUEUE s1 of
             [] \<Rightarrow> s1\<lparr>isProcessingQueue := False\<rparr>
           | request # rest \<Rightarrow>
               s1\<lparr>REQUEST_QUEUE := rest,
                  requestsThisSecond := requestsThisSecond s1 + 1,
                  awaited := awaited s1 @ [request],
                  started := started s1 @ [(request, now)]\<rparr>))"

text \<open>
  What can happen to the queue, each with the clock reading at that moment:
  \<^item> \<open>QueueRequest r now\<close>: \<open>queueRequest\<close> is called with request \<open>r\<close>;
  \<^item> \<open>Settled r now\<close>: the awaited request \<open>r\<close> resolves or rejects, and the \<open>finally\<close> block
    of \<open>processQueue\<close> runs;
  \<^item> \<open>Timeout due now\<close>: the timer due at \<open>due\<close> fires and calls \<open>processQueue\<close>.
\<close>

datatype 'a event = QueueRequest 'a int | Settled 'a int | Timeout int int

fun clock :: "'a event \<Rightarrow> int" where
  "clock (QueueRequest r now) = now"
| "clock (Settled r now) = now"
| "clock (Timeout due now) = now"

text \<open>One event; \<open>None\<close> when it cannot happen in the state.\<close>

fun step :: "'a event \<Rightarrow> 'a QueueState \<Rightarrow> 'a QueueState option" where
  "step (QueueRequest r now) s =
     (let s1 = s\<lparr>REQUEST_QUEUE := REQUEST_QUEUE s @ [r]\<rparr> in
      if \<not> isProcessingQueue s1 \<and> length (REQUEST_QUEUE s1) > 0
      then Some (processQueue now s1) else Some s1)"
| "step (Settled r now) s =
     (if r \<in> set (awaited s)
      then Some (processQueue now (s\<lparr>awaited := remove1 r (awaited s), isProcessingQueue := False\<rparr>))
      else None)"
| "step (Timeout due now) s =
     (if due \<in> set (timers s) \<and> due \<le> now
      then Some (processQueue now (s\<lparr>timers := remove1 due (timers s)\<rparr>))
      else None)"

fun run :: "'a event list \<Rightarrow> 'a QueueState \<Rightarrow> 'a QueueState option" where
  "run [] s = Some s"
| "run (e # es) s = (case step e s of None \<Rightarrow> None | Some s1 \<Rightarrow> run es s1)"

text \<open>The requests submitted by a history of events, in submission order.\<close>

fun submitted :: "'a event list \<Rightarrow> 'a list" where
  "submitted [] = []"
| "submitted (QueueRequest r now # es) = r # submitted es"
| "submitted (e # es) = submitted es"

text \<open>The number of requests started in the one-second window \<open>[t, t + 1000)\<close>.\<close>

definition startedIn :: "int \<Rightarrow> 'a QueueState \<Rightarrow> nat" where
  "startedIn t s = length (filter (\<lambda>p. t \<le> snd p \<and> snd p < t + 1000) (started s))"

text \<open>
  A burst: the module is loaded at time 0; 31 requests are queued at time 700, and each takes
  10 ms, so that they start at 700, 710, ..., 990 and 1000.
\<close>

definition burst :: "nat event list" where
  "burst = map (\<lambda>i. QueueRequest i 700) [0..<31]
         @ map (\<lambda>i. Settled i (710 + 10 * int i)) [0..<30]"

text \<open>
  What holds of the queue after every event, when the last clock reading was \<open>tnow\<close> and the
  requests submitted so far are \<open>sub\<close>.
\<close>

definition queueInv :: "'a QueueState \<Rightarrow> int \<Rightarrow> 'a list \<Rightarrow> bool" where
  "queueInv s tnow sub =
     (map fst (started s) @ REQUEST_QUEUE s = sub
      \<and> requestsThisSecond s \<le> MAX_REQUESTS_PER_SECOND
      \<and> resets s \<noteq> [] \<and> hd (resets s) = lastRequestTime s
      \<and> (\<forall>r \<in> set (tl (resets s)). r + 1000 \<le> lastRequestTime s)
      \<and> sorted_wrt (\<lambda>a b. b + 1000 \<le> a) (resets s)
      \<and> lastRequestTime s \<le> tnow
      \<and> (\<forall>p \<in> set (started s). snd p < lastRequestTime s + 1000)
      \<and> startedIn (lastRequestTime s) s \<le> requestsThisSecond s
      \<and> (\<forall>r \<in> set (tl (resets s)). startedIn r s \<le> MAX_REQUESTS_PER_SECOND))"

text \<open>Every started request lies in the one-second window of some value of \<open>lastRequestTime\<close>.\<close>

definition covered :: "'a QueueState \<Rightarrow> bool" where
  "covered s = (\<forall>p \<in> set (started s). \<exists>r \<in> set (resets s). r \<le> snd p \<and> snd p < r + 1000)"

section \<open>Arithmetic of \<open>number\<close> (IEEE 754 binary64)\<close>

text \<open>
  A finite binary64 value is modelled by the rational it denotes, and an arithmetic
  operation by the exact operation followed by rounding to the nearest representable value,
  ties to the value with an even significand. Overflow to \<open>Infinity\<close> is not modelled: the
  model is faithful for results of magnitude below \<open>2^1024\<close>; \<open>NaN\<close> does not arise from finite
  operands in the operations used (no division has a zero divisor).
\<close>

text \<open>Rounding to the nearest integer, ties to even.\<close>

definition roundHalfEven :: "rat \<Rightarrow> int" where
  "roundHalfEven x =
     (let n = \<lfloor>x\<rfloor>; r = x - of_int n in
      if r < 1 / 2 then n else if 1 / 2 < r then n + 1 else if even n then n else n + 1)"

text \<open>\<open>\<lfloor>log\<^sub>2 x\<rfloor>\<close> for a positive rational, from the bit lengths of numerator and denominator.\<close>

definition ilog2 :: "rat \<Rightarrow> int" where
  "ilog2 x =
     (let l = bitlen (fst (quotient_of x)) - bitlen (snd (quotient_of x)) in
      if 2 powi l \<le> x then l else l - 1)"

text \<open>
  The nearest binary64 value: 53 significant bits, so the unit in the last place of \<open>x\<close> is
  \<open>2^(\<lfloor>log\<^sub>2 |x|\<rfloor> - 52)\<close>, and not below \<open>2^-1074\<close> (subnormal numbers).
\<close>

definition round64 :: "rat \<Rightarrow> rat" where
  "round64 x =
     (if x = 0 then 0
      else let e = max (ilog2 \<bar>x\<bar> - 52) (- 1074) in
           of_int (roundHalfEven (x / 2 powi e)) * 2 powi e)"

definition fadd :: "rat \<Rightarrow> rat \<Rightarrow> rat" where
  "fadd x y = round64 (x + y)"

definition fsub :: "rat \<Rightarrow> rat \<Rightarrow> rat" where
  "fsub x y = round64 (x - y)"

definition fdiv :: "rat \<Rightarrow> rat \<Rightarrow> rat" where
  "fdiv x y = round64 (x / y)"

text \<open>A decimal literal of the source, such as \<open>0.15\<close>: the nearest binary64 value.\<close>

definition literal :: "rat \<Rightarrow> rat" where
  "literal q = round64 q"

section \<open>News sentiment aggregator (apiService, \<open>analyzeSentiment\<close>)\<close>

subsection \<open>Local time\<close>

text \<open>
  \<open>Date\<close> methods that read or set local time fields. The local time zone is modelled by a
  constant offset \<open>tz\<close> in milliseconds east of UTC (no daylight-saving change between the
  instants involved). \<open>setHours tz t h\<close> is the time value of a \<open>Date\<close> with time value \<open>t\<close>
  after \<open>setHours(h, 0, 0, 0)\<close>; \<open>h\<close> may be negative or exceed 23. Instants are assumed to
  stay inside the range of \<open>Date\<close>.
\<close>

definition localMidnight :: "int \<Rightarrow> int \<Rightarrow> int" where
  "localMidnight tz t = (t + tz) div 86400000 * 86400000 - tz"

definition getHours :: "int \<Rightarrow> int \<Rightarrow> int" where
  "getHours tz t = (t + tz) div 3600000 mod 24"

definition setHours :: "int \<Rightarrow> int \<Rightarrow> int \<Rightarrow> int" where
  "setHours tz t h = localMidnight tz t + h * 3600000"

subsection \<open>Trend buckets\<close>

text \<open>
  \<open>hoursAgo = (now.getTime() - date.getTime()) / (1000 * 60 * 60)\<close> and
  \<open>groupIndex = Math.floor(hoursAgo / hoursPerGroup)\<close>, in binary64 arithmetic.
\<close>

definition hoursAgo :: "int \<Rightarrow> int \<Rightarrow> rat" where
  "hoursAgo now published = fdiv (fsub (of_int now) (of_int published)) (of_int (1000 * 60 * 60))"

definition groupIndex :: "int \<Rightarrow> int \<Rightarrow> int \<Rightarrow> int" where
  "groupIndex hoursPerGroup now published = \<lfloor>fdiv (hoursAgo now published) (of_int hoursPerGroup)\<rfloor>"

text \<open>
  The start of the period an article published at \<open>published\<close> is put into; its ISO string is
  the key of \<open>timeGroups\<close>.
\<close>

definition periodStartEpoch :: "string \<Rightarrow> int \<Rightarrow> int \<Rightarrow> int \<Rightarrow> int" where
  "periodStartEpoch timeRange tz now published =
     (let hoursPerGroup = (if timeRange = ''24h'' then 3 else 24) in
      if timeRange = ''24h''
      then setHours tz now
             (getHours tz now - getHours tz now mod hoursPerGroup
                - groupIndex hoursPerGroup now published * hoursPerGroup)
      else localMidnight tz published)"

text \<open>
  \<open>timeGroups\<close> is a \<open>Map\<close> from period start to the articles of the period; it keeps the
  order in which keys were first set.
\<close>

fun addToGroup :: "int \<Rightarrow> NewsArticle \<Rightarrow> (int \<times> NewsArticle list) list \<Rightarrow> (int \<times> NewsArticle list) list" where
  "addToGroup k a [] = [(k, [a])]"
| "addToGroup k a ((k', as) # gs) =
     (if k' = k then (k', as @ [a]) # gs else (k', as) # addToGroup k a gs)"

definition timeGroups :: "string \<Rightarrow> int \<Rightarrow> int \<Rightarrow> NewsArticle list \<Rightarrow> (int \<times> NewsArticle list) list" where
  "timeGroups timeRange tz now news =
     foldl (\<lambda>gs a. addToGroup (periodStartEpoch timeRange tz now (publishedAt a)) a gs) [] news"

text \<open>\<open>xs.reduce((sum, x) => sum + x, 0)\<close>\<close>

definition sumScores :: "rat list \<Rightarrow> rat" where
  "sumScores xs = foldl fadd 0 xs"

definition trendPoints :: "(int \<times> NewsArticle list) list \<Rightarrow> SentimentTrendPoint list" where
  "trendPoints groups =
     map (\<lambda>(t, articlesInGroup).
            \<lparr>time = t,
             sentiment = fdiv (sumScores (map sentimentScore articlesInGroup))
                              (of_nat (max 1 (length articlesInGroup))),
             articles = length articlesInGroup\<rparr>)
         (sort_key fst groups)"

subsection \<open>Structured summary\<close>

definition digit :: "nat \<Rightarrow> char" where
  "digit n = char_of (48 + n)"

text \<open>The decimal rendering of a natural number.\<close>

fun showNat :: "nat \<Rightarrow> string" where
  "showNat n = (if n < 10 then [digit n] else showNat (n div 10) @ [digit (n mod 10)])"

text \<open>
  \<open>x.toFixed(2)\<close> for \<open>|x| < 10^21\<close>: the integer \<open>n\<close> nearest to \<open>100 |x|\<close>, the larger one on
  a tie, printed with two decimals, after a minus sign when \<open>x < 0\<close>.
\<close>

definition toFixed2 :: "rat \<Rightarrow> string" where
  "toFixed2 x =
     (let n = nat \<lfloor>\<bar>x\<bar> * 100 + 1 / 2\<rfloor> in
      (if x < 0 then ''-'' else []) @ showNat (n div 100) @ ''.''
        @ [digit (n mod 100 div 10), digit (n mod 10)])"

definition dquote :: string where
  "dquote = [CHR 0x22]"

text \<open>\<open>justification ? `${justification.substring(0, 100)}...` : undefined\<close>\<close>

definition snippet :: "string \<Rightarrow> string option" where
  "snippet j = (if j \<noteq> [] then Some (take 100 j @ ''...'') else None)"

text \<open>The first element of \<open>as.sort(...)\<close> by ascending key, \<open>undefined\<close> for an empty array.\<close>

definition firstBy :: "(NewsArticle \<Rightarrow> rat) \<Rightarrow> NewsArticle list \<Rightarrow> NewsArticle option" where
  "firstBy k as = (case sort_key k as of [] \<Rightarrow> None | a # rest \<Rightarrow> Some a)"

definition mentionType :: "NewsArticle \<Rightarrow> FactorType" where
  "mentionType a =
     (if financialSentimentCategory a = bullish then factor_positive
      else if financialSentimentCategory a = bearish then factor_negative
      else factor_neutral)"

definition mention :: "string \<Rightarrow> NewsArticle \<Rightarrow> KeyFactor" where
  "mention pre a = \<lparr>factor_type = mentionType a, prefix = pre,
     factor_title = dquote @ title a @ dquote, score = Some (sentimentScore a),
     justificationSnippet = snippet (justification a)\<rparr>"

definition overallSentimentDescription :: "NewsArticle list \<Rightarrow> rat \<Rightarrow> string" where
  "overallSentimentDescription news overallSentiment =
     (if overallSentiment > literal (5 / 10) then ''decidedly bullish''
      else if overallSentiment > literal (15 / 100) then ''leaning bullish''
      else if overallSentiment < - literal (5 / 10) then ''decidedly bearish''
      else if overallSentiment < - literal (15 / 100) then ''leaning bearish''
      else if \<exists>a \<in> set news. financialSentimentCategory a = mixed then ''mixed''
      else ''neutral'')"

definition keyFactorsOf :: "NewsArticle list \<Rightarrow> KeyFactor list" where
  "keyFactorsOf news =
     (let topPositiveArticle =
            firstBy (\<lambda>a. - sentimentScore a)
              (filter (\<lambda>a. financialSentimentCategory a = bullish) news);
          topNegativeArticle =
            firstBy sentimentScore
              (filter (\<lambda>a. financialSentimentCategory a = bearish) news);
          k1 = (case topPositiveArticle of
                  None \<Rightarrow> []
                | Some a \<Rightarrow>
                    if sentimentScore a > literal (3 / 10)
                    then [\<lparr>factor_type = factor_positive, prefix = ''(+)'',
                           factor_title = ''Bullish Driver: '' @ dquote @ title a @ dquote,
                           score = Some (sentimentScore a),
                           justificationSnippet = snippet (justification a)\<rparr>]
                    else []);
          k2 = k1 @
               (case topNegativeArticle of
                  None \<Rightarrow> []
                | Some a \<Rightarrow>
                    if sentimentScore a < - literal (3 / 10)
                    then [\<lparr>factor_type = factor_negative, prefix = ''(-)'',
                           factor_title = ''Bearish Driver: '' @ dquote @ title a @ dquote,
                           score = Some (sentimentScore a),
                           justificationSnippet = snippet (justification a)\<rparr>]
                    else []);
          k3 = (if length k2 = 0 \<and> length news > 0
                then
                  (let sortedByImpact = sort_key (\<lambda>a. - \<bar>sentimentScore a\<bar>) news;
                       k2a = k2 @
                         (case sortedByImpact of
                            [] \<Rightarrow> []
                          | mostImpactful # rest \<Rightarrow>
                              if \<bar>sentimentScore mostImpactful\<bar> > literal (1 / 10)
                              then [mention ''Key Mention:'' mostImpactful] else [])
                   in if length sortedByImpact > 1 \<and> length k2a < 2
                      then k2a @
                         (let secondMostImpactful = sortedByImpact ! 1 in
                          if \<bar>sentimentScore secondMostImpactful\<bar> > literal (1 / 10)
                          then [mention ''Also Noted:'' secondMostImpactful] else [])
                      else k2a)
                else k2)
      in if length k3 = 0 \<and> length news > 0
         then k3 @ [\<lparr>factor_type = factor_neutral, prefix = ''Info:'',
                      factor_title = ''No single dominant factor stood out in the recent news, but overall sentiment is as stated.'',
                      score = None, justificationSnippet = None\<rparr>]
         else k3)"

definition relevanceTextOf :: "NewsArticle list \<Rightarrow> string" where
  "relevanceTextOf news =
     (let highRelevanceCount = length (filter (\<lambda>a. relevanceToPrice a = high) news) in
      if highRelevanceCount > 0
      then showNat highRelevanceCount
             @ '' article(s) were deemed highly relevant to stock price by the AI.''
      else if length news > 0
      then ''AI analysis found no articles with high relevance to stock price among the top news.''
      else [])"

definition generateStructuredNewsSummary :: "string \<Rightarrow> NewsArticle list \<Rightarrow> rat \<Rightarrow> StructuredNewsSummary" where
  "generateStructuredNewsSummary symb news overallSentiment =
     (if length news = 0
      then \<lparr>overallSentimentText = ''No recent news available for '' @ symb @ ''.'',
            averageScoreText = [], keyFactors = [],
            relevanceText = ''Sentiment analysis cannot be performed.'', hasContent = False\<rparr>
      else \<lparr>overallSentimentText = ''Overall sentiment for '' @ symb @ '' is ''
                @ overallSentimentDescription news overallSentiment,
            averageScoreText = ''(Avg. Score: '' @ toFixed2 overallSentiment @ '')'',
            keyFactors = keyFactorsOf news,
            relevanceText = relevanceTextOf news,
            hasContent = True\<rparr>)"

subsection \<open>The aggregator\<close>

definition fallbackStructuredSummary :: "string \<Rightarrow> StructuredNewsSummary" where
  "fallbackStructuredSummary symb =
     \<lparr>overallSentimentText = ''No news available for '' @ symb @ ''.'',
      averageScoreText = [], keyFactors = [],
      relevanceText = ''Sentiment analysis cannot be performed.'', hasContent = False\<rparr>"

text \<open>
  \<open>analyzeSentiment(symbol, news, timeRange)\<close>, with the part of the generic cache that holds
  sentiment data, the zone offset and the clock reading \<open>now\<close>.
\<close>

definition analyzeSentiment ::
  "(string \<rightharpoonup> SentimentData CacheItem) \<Rightarrow> int \<Rightarrow> int \<Rightarrow> string \<Rightarrow> NewsArticle list \<Rightarrow> string
     \<Rightarrow> SentimentData" where
  "analyzeSentiment cache tz now symb news timeRange =
     (case getCachedData cache now (''sentiment_'' @ symb @ ''_'' @ timeRange) of
        Some cached \<Rightarrow> cached
      | None \<Rightarrow>
          if length news = 0
          then \<lparr>overall = 0, positive = 0, negative = 0, neutral = 1,
                summary_text = overallSentimentText (fallbackStructuredSummary symb),
                structuredSummary = Some (fallbackStructuredSummary symb),
                trendData = []\<rparr>
          else
            let sentimentScores = map sentimentScore news;
                overallSentiment =
                  (if length sentimentScores > 0
                   then fdiv (sumScores sentimentScores) (of_nat (length sentimentScores))
                   else 0);
                structuredSummaryData = generateStructuredNewsSummary symb news overallSentiment
            in \<lparr>overall = overallSentiment,
                positive = fdiv (of_nat (length (filter (\<lambda>a. financialSentimentCategory a = bullish) news)))
                                (of_nat (length news)),
                negative = fdiv (of_nat (length (filter (\<lambda>a. financialSentimentCategory a = bearish) news)))
                                (of_nat (length news)),
                neutral = fdiv (of_nat (length (filter (\<lambda>a. financialSentimentCategory a = neutral_impact
                                                        \<or> financialSentimentCategory a = mixed) news)))
                               (of_nat (length news)),
                summary_text = overallSentimentText structuredSummaryData @ '' ''
                                 @ averageScoreText structuredSummaryData,
                structuredSummary = Some structuredSummaryData,
                trendData = trendPoints (timeGroups timeRange tz now news)\<rparr>)"

text \<open>An analyzed article with a category, a score and a publication time.\<close>

definition article :: "SentimentCategory \<Rightarrow> rat \<Rightarrow> int \<Rightarrow> NewsArticle" where
  "article c sc p = \<lparr>article_id = ''id'', title = ''headline'', summary = ''text'',
     url = Some ''https://example.com'', source = Some ''wire'', publishedAt = p,
     financialSentimentCategory = c, sentimentScore = sc, relevanceToPrice = medium,
     justification = ''because''\<rparr>"

text \<open>The number of articles whose category satisfies \<open>P\<close>.\<close>

definition countCategory :: "(SentimentCategory \<Rightarrow> bool) \<Rightarrow> NewsArticle list \<Rightarrow> nat" where
  "countCategory P news = length (filter (\<lambda>a. P (financialSentimentCategory a)) news)"

text \<open>Three articles, one bullish, one bearish and one mixed.\<close>

definition threeArticles :: "NewsArticle list" where
  "threeArticles = [article bullish (literal (7 / 10)) 1699999000000,
     article bearish (- literal (2 / 10)) 1699990000000,
     article mixed 0 1699980000000]"

text \<open>The two articles of the scenario of C8: bullish with score \<open>0.6\<close>, bearish with \<open>-0.4\<close>.\<close>

definition scenario :: "NewsArticle list" where
  "scenario = [article bullish (literal (6 / 10)) 1699999000000,
     article bearish (- literal (4 / 10)) 1699990000000]"

text \<open>
  The period start \<open>analyzeSentiment\<close> computes for an article in a 24h-range computation: the
  key under which the article is put into \<open>timeGroups\<close>.
\<close>

definition bucketOf :: "int \<Rightarrow> int \<Rightarrow> NewsArticle \<Rightarrow> int" where
  "bucketOf tz now a = periodStartEpoch ''24h'' tz now (publishedAt a)"

text \<open>
  Articles for a computation at \<open>1699996200000\<close> (2023-11-14 21:10:00 UTC): two published at
  18:40 and 17:40 UTC, on either side of 18:00 UTC, and three published at 20:00, 19:00 and
  16:00 UTC.
\<close>

definition hourApart :: "NewsArticle list" where
  "hourApart = [article bullish (literal (6 / 10)) 1699987200000,
     article bearish (- literal (4 / 10)) 1699983600000]"

definition threeTimed :: "NewsArticle list" where
  "threeTimed = [article bullish (literal (6 / 10)) 1699992000000,
     article bearish (- literal (4 / 10)) 1699988400000,
     article mixed 0 1699977600000]"

section \<open>Properties of the tiered cache\<close>

text \<open>
  C5. In each of the three tiers a write stores the payload under its key with the time of
  the write and the tier's time-to-live, replacing whatever was there and touching no other
  key; a read at time \<open>now\<close> of a key whose entry \<open>e\<close> has \<open>now - cachedAt e \<le> ttl e\<close> returns the
  payload of that entry (the one the most recent write for the key left) and leaves the
  cache as it is; a read with \<open>now - cachedAt e > ttl e\<close> returns absent and removes the entry.
\<close>

theorem StockCache_read_write:
  "(stockCache (StockCache_set symb p ttl_arg t0 c) (toUpperCase symb) =
       Some \<lparr>data = p, cachedAt = t0,
             ttl = (case ttl_arg of None \<Rightarrow> STOCK_TTL | Some t \<Rightarrow> if t = 0 then STOCK_TTL else t)\<rparr>)
   \<and> (k \<noteq> toUpperCase symb \<longrightarrow> stockCache (StockCache_set symb p ttl_arg t0 c) k = stockCache c k)
   \<and> (stockCache c (toUpperCase symb) = Some e \<and> now - cachedAt e \<le> ttl e \<longrightarrow>
         StockCache_get symb now c = (Some (data e), c))
   \<and> (stockCache c (toUpperCase symb) = Some e \<and> now - cachedAt e > ttl e \<longrightarrow>
         StockCache_get symb now c =
           (None, c\<lparr>stockCache := (stockCache c)(toUpperCase symb := None)\<rparr>))
   \<and> (newsCache (setNews symb r n t0 c) (rangeKey symb r) =
         Some \<lparr>data = n, cachedAt = t0, ttl = NEWS_TTL\<rparr>)
   \<and> (k \<noteq> rangeKey symb r \<longrightarrow> newsCache (setNews symb r n t0 c) k = newsCache c k)
   \<and> (newsCache c (rangeKey symb r) = Some en \<and> now - cachedAt en \<le> ttl en \<longrightarrow>
         getNews symb r now c = (Some (data en), c))
   \<and> (newsCache c (rangeKey symb r) = Some en \<and> now - cachedAt en > ttl en \<longrightarrow>
         getNews symb r now c = (None, c\<lparr>newsCache := (newsCache c)(rangeKey symb r := None)\<rparr>))
   \<and> (sentimentCache (setSentiment symb r d t0 c) (rangeKey symb r) =
         Some \<lparr>data = d, cachedAt = t0, ttl = SENTIMENT_TTL\<rparr>)
   \<and> (k \<noteq> rangeKey symb r \<longrightarrow> sentimentCache (setSentiment symb r d t0 c) k = sentimentCache c k)
   \<and> (sentimentCache c (rangeKey symb r) = Some es \<and> now - cachedAt es \<le> ttl es \<longrightarrow>
         getSentiment symb r now c = (Some (data es), c))
   \<and> (sentimentCache c (rangeKey symb r) = Some es \<and> now - cachedAt es > ttl es \<longrightarrow>
         getSentiment symb r now c =
           (None, c\<lparr>sentimentCache := (sentimentCache c)(rangeKey symb r := None)\<rparr>))"
  unfolding StockCache_set_def StockCache_get_def setNews_def getNews_def
    setSentiment_def getSentiment_def
  by (intro conjI impI; simp)

theorem StockCache_read_write_witness:
  "StockCache_get ''aapl'' 121000 (StockCache_set ''AAPL'' demoStock None 1000 emptyCache) =
       (Some demoStock, StockCache_set ''AAPL'' demoStock None 1000 emptyCache)
   \<and> fst (StockCache_get ''aapl'' 121001 (StockCache_set ''AAPL'' demoStock None 1000 emptyCache)) = None
   \<and> stockCache (snd (StockCache_get ''aapl'' 121001
          (StockCache_set ''AAPL'' demoStock None 1000 emptyCache))) ''AAPL'' = None
   \<and> getNews ''aapl'' ''24h'' 601000 (setNews ''AAPL'' ''24h'' [] 1000 emptyCache) =
       (Some [], setNews ''AAPL'' ''24h'' [] 1000 emptyCache)
   \<and> fst (getNews ''aapl'' ''24h'' 601001 (setNews ''AAPL'' ''24h'' [] 1000 emptyCache)) = None
   \<and> newsCache (snd (getNews ''aapl'' ''24h'' 601001
          (setNews ''AAPL'' ''24h'' [] 1000 emptyCache))) ''AAPL_24h'' = None"
proof -
  let ?c = "StockCache_set ''AAPL'' demoStock None 1000 emptyCache"
  let ?e = "\<lparr>data = demoStock, cachedAt = 1000, ttl = STOCK_TTL\<rparr>"
  let ?n = "setNews ''AAPL'' ''24h'' [] 1000 emptyCache"
  let ?en = "\<lparr>data = [] :: NewsArticle list, cachedAt = 1000, ttl = NEWS_TTL\<rparr>"
  have up: "toUpperCase ''aapl'' = ''AAPL''" "toUpperCase ''AAPL'' = ''AAPL''"
    by code_simp+
  have key: "rangeKey ''aapl'' ''24h'' = ''AAPL_24h''" "rangeKey ''AAPL'' ''24h'' = ''AAPL_24h''"
    by (simp_all add: rangeKey_def up)
  have entry: "stockCache ?c (toUpperCase ''aapl'') = Some ?e"
    by (simp add: StockCache_set_def up)
  have nentry: "newsCache ?n (rangeKey ''aapl'' ''24h'') = Some ?en"
    by (simp add: setNews_def key)
  note stock_fresh = StockCache_read_write [of "''aapl''" demoStock None 0 ?c "''x''" ?e 121000
      "''24h''" "[]" ?en undefined undefined]
  note stock_stale = StockCache_read_write [of "''aapl''" demoStock None 0 ?c "''x''" ?e 121001
      "''24h''" "[]" ?en undefined undefined]
  note news_fresh = StockCache_read_write [of "''aapl''" demoStock None 0 ?n "''x''" ?e 601000
      "''24h''" "[]" ?en undefined undefined]
  note news_stale = StockCache_read_write [of "''aapl''" demoStock None 0 ?n "''x''" ?e 601001
      "''24h''" "[]" ?en undefined undefined]
  have a: "StockCache_get ''aapl'' 121000 ?c = (Some demoStock, ?c)"
    using stock_fresh entry by (simp add: STOCK_TTL_def)
  have b: "StockCache_get ''aapl'' 121001 ?c =
      (None, ?c\<lparr>stockCache := (stockCache ?c)(toUpperCase ''aapl'' := None)\<rparr>)"
    using stock_stale entry by (simp add: STOCK_TTL_def)
  have c: "getNews ''aapl'' ''24h'' 601000 ?n = (Some [], ?n)"
    using news_fresh nentry by (simp add: NEWS_TTL_def)
  have d: "getNews ''aapl'' ''24h'' 601001 ?n =
      (None, ?n\<lparr>newsCache := (newsCache ?n)(rangeKey ''aapl'' ''24h'' := None)\<rparr>)"
    using news_stale nentry by (simp add: NEWS_TTL_def)
  show ?thesis
    by (simp add: a b c d up key)
qed

section \<open>Properties of the watchlist adapter\<close>

text \<open>
  C9. For a signed-in user and a symbol that is already in the local watchlist,
  \<open>addToWatchlist\<close> changes nothing: the whole state is as before, so the list and its length
  are unchanged and no insert is issued. The same holds for the variant that re-fetches.
\<close>

theorem addToWatchlist_present_noop:
  assumes "user s = Some uid"
    and "symb \<in> item_symbol ` set (watchlist s)"
  shows "addToWatchlist symb nm insert_error s = s
     \<and> watchlist (addToWatchlist symb nm insert_error s) = watchlist s
     \<and> length (watchlist (addToWatchlist symb nm insert_error s)) = length (watchlist s)
     \<and> inserts (addToWatchlist symb nm insert_error s) = inserts s
     \<and> addToWatchlist_refetch (Some uid) symb nm insert_error fetched s = s"
proof -
  from assms(2) have ex: "\<exists>item \<in> set (watchlist s). item_symbol item = symb"
    by auto
  have a: "addToWatchlist symb nm insert_error s = s"
    using assms(1) ex by (simp add: addToWatchlist_def)
  have b: "addToWatchlist_refetch (Some uid) symb nm insert_error fetched s = s"
    using ex by (simp add: addToWatchlist_refetch_def)
  show ?thesis
    by (simp add: a b)
qed

theorem addToWatchlist_present_noop_witness:
  "addToWatchlist ''MSFT'' ''Microsoft Corp'' None demoWatchlist = demoWatchlist
   \<and> length (watchlist (addToWatchlist ''MSFT'' ''Microsoft Corp'' None demoWatchlist)) = 2
   \<and> inserts (addToWatchlist ''MSFT'' ''Microsoft Corp'' None demoWatchlist) = []
   \<and> length (watchlist (addToWatchlist ''NVDA'' ''Nvidia'' None demoWatchlist)) = 3
   \<and> length (inserts (addToWatchlist ''NVDA'' ''Nvidia'' None demoWatchlist)) = 1"
proof -
  have u: "user demoWatchlist = Some ''user-1''"
    by (simp add: demoWatchlist_def)
  have m: "''MSFT'' \<in> item_symbol ` set (watchlist demoWatchlist)"
    by (simp add: demoWatchlist_def)
  have same: "addToWatchlist ''MSFT'' ''Microsoft Corp'' None demoWatchlist = demoWatchlist"
    using addToWatchlist_present_noop [OF u m] by simp
  have other: "length (watchlist (addToWatchlist ''NVDA'' ''Nvidia'' None demoWatchlist)) = 3
      \<and> length (inserts (addToWatchlist ''NVDA'' ''Nvidia'' None demoWatchlist)) = 1"
    by (simp add: addToWatchlist_def demoWatchlist_def)
  show ?thesis
    using other by (simp add: same) (simp add: demoWatchlist_def)
qed

section \<open>Properties of the retrying fetch wrapper\<close>

lemma fetchWithRetry_retry:
  assumes "attempt (fetch k) = Inl e" and "retries \<noteq> 0"
  shows "fetchWithRetry fetch retries delay k tr =
         fetchWithRetry fetch (retries - 1) (delay * 2) (Suc k) (tr @ [Fetch, Sleep delay])"
  using assms by (subst fetchWithRetry.simps) simp

lemma fetchWithRetry_last:
  assumes "attempt (fetch k) = Inl e"
  shows "fetchWithRetry fetch 0 delay k tr = Some (Inl (asError e), Suc k, tr @ [Fetch])"
  using assms by (subst fetchWithRetry.simps) simp

text \<open>
  C4. When every invocation of the target fails, \<open>fetchWithRetry\<close> with the default 3 retries
  and initial delay \<open>d\<close> returns: it has invoked the target exactly 4 times, slept \<open>d\<close>, \<open>2d\<close>
  and \<open>4d\<close> before the three retries, and rejects with the failure of the fourth attempt.
\<close>

theorem fetchWithRetry_exhausts:
  assumes "\<forall>k. fails (fetch k)"
  shows "fetchWithRetry fetch MAX_RETRIES d 0 [] =
     Some (Inl (asError (failure (fetch 3))), 4,
           [Fetch, Sleep d, Fetch, Sleep (2 * d), Fetch, Sleep (4 * d), Fetch])"
proof -
  have f: "\<And>k. attempt (fetch k) = Inl (failure (fetch k))"
    using assms by (auto simp: fails_def failure_def split: sum.splits)
  have "fetchWithRetry fetch 3 d 0 [] =
        fetchWithRetry fetch 2 (2 * d) 1 [Fetch, Sleep d]"
    using fetchWithRetry_retry [of fetch 0 "failure (fetch 0)" 3 d "[]"] f by (simp add: mult.commute)
  also have "\<dots> = fetchWithRetry fetch 1 (4 * d) 2 [Fetch, Sleep d, Fetch, Sleep (2 * d)]"
    using fetchWithRetry_retry [of fetch 1 "failure (fetch 1)" 2 "2 * d" "[Fetch, Sleep d]"] f
    by (simp add: numeral_2_eq_2 mult.commute)
  also have "\<dots> = fetchWithRetry fetch 0 (8 * d) 3
        [Fetch, Sleep d, Fetch, Sleep (2 * d), Fetch, Sleep (4 * d)]"
    using fetchWithRetry_retry [of fetch 2 "failure (fetch 2)" 1 "4 * d"
        "[Fetch, Sleep d, Fetch, Sleep (2 * d)]"] f
    by (simp add: numeral_3_eq_3 numeral_2_eq_2 mult.commute)
  also have "\<dots> = Some (Inl (asError (failure (fetch 3))), 4,
        [Fetch, Sleep d, Fetch, Sleep (2 * d), Fetch, Sleep (4 * d), Fetch])"
    using fetchWithRetry_last [of fetch 3 "failure (fetch 3)" "8 * d"
        "[Fetch, Sleep d, Fetch, Sleep (2 * d), Fetch, Sleep (4 * d)]"] f
    by (simp add: mult.commute)
  finally show ?thesis
    by (simp add: MAX_RETRIES_def)
qed

theorem fetchWithRetry_exhausts_witness:
  "fetchWithRetry (\<lambda>k. if k = 3 then NotOk ''503'' ''Service Unavailable'' (Inr ''busy'')
                        else (Rejected (NonError ''offline'') :: nat response)) MAX_RETRIES 1000 0 [] =
     Some (Inl (Error ''HTTP error! status: 503, statusText: Service Unavailable, body: busy''), 4,
           [Fetch, Sleep 1000, Fetch, Sleep 2000, Fetch, Sleep 4000, Fetch])"
proof -
  let ?f = "\<lambda>k. if k = 3 then NotOk ''503'' ''Service Unavailable'' (Inr ''busy'')
                  else (Rejected (NonError ''offline'') :: nat response)"
  have "\<forall>k. fails (?f k)"
    by (simp add: fails_def)
  from fetchWithRetry_exhausts [OF this, of 1000] show ?thesis
    by (simp add: failure_def)
qed

section \<open>Properties of the news fetch\<close>

lemma filterArticles_ok: "newsListOk (filterArticles as)"
proof -
  let ?f = "filter (\<lambda>a. title a \<noteq> [] \<and> summary a \<noteq> [] \<and> truthy (url a)) as"
  let ?s = "sort_key (\<lambda>a. - publishedAt a) ?f"
  have len: "length (take 10 ?s) \<le> 10" by simp
  have "\<forall>a \<in> set ?s. title a \<noteq> [] \<and> summary a \<noteq> [] \<and> truthy (url a)"
    by simp
  then have all: "list_all (\<lambda>a. title a \<noteq> [] \<and> summary a \<noteq> [] \<and> truthy (url a)) (take 10 ?s)"
    unfolding list_all_iff using in_set_takeD by fast
  have "sorted (map (\<lambda>a. - publishedAt a) ?s)"
    by (rule sorted_sort_key)
  then have "sorted_wrt (\<lambda>a b. publishedAt a \<ge> publishedAt b) ?s"
    by (simp add: sorted_map)
  then have srt: "sorted_wrt (\<lambda>a b. publishedAt a \<ge> publishedAt b) (take 10 ?s)"
    by (rule sorted_wrt_take)
  show ?thesis
    unfolding newsListOk_def filterArticles_def using len all srt by blast
qed

lemma newsListOk_Nil: "newsListOk []"
  by (simp add: newsListOk_def)

lemma getNewsArticles_ok:
  assumes "cacheOk cache"
  shows "newsListOk (fst (getNewsArticles key cache now now2 symb timeRange fetched gen))
       \<and> cacheOk (snd (getNewsArticles key cache now now2 symb timeRange fetched gen))"
  using assms
  by (auto simp: getNewsArticles_def getCachedData_def setCachedData_def cacheOk_def
      newsListOk_Nil filterArticles_ok split: option.splits sum.splits if_splits)

lemma calls_ok:
  "cacheOk cache \<Longrightarrow> \<forall>res \<in> set (getNewsArticles_calls key cache calls). newsListOk res"
proof (induction calls arbitrary: cache)
  case Nil
  then show ?case by simp
next
  case (Cons c calls)
  obtain symb timeRange now now2 fetched gen where c: "c = (symb, timeRange, now, now2, fetched, gen)"
    by (cases c) auto
  from getNewsArticles_ok [OF Cons.prems]
  have 1: "newsListOk (fst (getNewsArticles key cache now now2 symb timeRange fetched gen))"
    and 2: "cacheOk (snd (getNewsArticles key cache now now2 symb timeRange fetched gen))"
    by blast+
  show ?case
    using 1 Cons.IH [OF 2] by (simp add: c)
qed

text \<open>
  C10. Over any history of calls since the module was loaded (the cache starts empty), every
  list \<open>getNewsArticles\<close> returns has at most 10 articles, each with a non-empty title, a
  non-empty summary and a non-empty url, in order of publication time, newest first.
\<close>

theorem getNewsArticles_result_ok:
  "\<forall>res \<in> set (getNewsArticles_calls key Map.empty calls). newsListOk res"
  by (rule calls_ok) (simp add: cacheOk_def)

lemma demoCalls_eval: "getNewsArticles_calls (Some ''k'') Map.empty demoCalls =
   [[demoRaw ''c'' 200000, demoRaw ''a'' 100000], [demoRaw ''c'' 200000, demoRaw ''a'' 100000]]"
  by (simp add: demoCalls_def getNewsArticles_def configured_def getCachedData_def
      setCachedData_def mapArticles_def toArticle_def demoItem_def demoRaw_def filterArticles_def
      truthy_def orEmpty_def MAX_TIME_def CACHE_DURATION_def upt_rec)

theorem getNewsArticles_result_ok_witness:
  "getNewsArticles_calls (Some ''k'') Map.empty demoCalls =
     [[demoRaw ''c'' 200000, demoRaw ''a'' 100000], [demoRaw ''c'' 200000, demoRaw ''a'' 100000]]
   \<and> newsListOk [demoRaw ''c'' 200000, demoRaw ''a'' 100000]"
  using getNewsArticles_result_ok [of "Some ''k''" demoCalls]
  by (simp add: demoCalls_eval)

section \<open>Properties of the LLM analysis call\<close>

text \<open>
  C7. When the configuration key is missing or the queued, retried call rejects,
  \<open>analyzeNewsWithGemini\<close> resolves with a list as long as its input, whose \<open>i\<close>-th element is the
  \<open>i\<close>-th input article with category \<open>neutral-impact\<close>, score 0 and relevance \<open>low\<close> added:
  no article is left out and none lacks these fields.
\<close>

theorem analyzeNewsWithGemini_failure_defaults:
  assumes "\<not> configured key \<or> call = Inl err"
  shows "\<exists>res. analyzeNewsWithGemini key as call = Inr res
     \<and> length res = length as
     \<and> (\<forall>i < length as.
           RawNewsArticle.truncate (res ! i) = as ! i
         \<and> financialSentimentCategory (res ! i) = neutral_impact
         \<and> sentimentScore (res ! i) = 0
         \<and> relevanceToPrice (res ! i) = low)"
proof -
  have d: "\<And>j a. RawNewsArticle.truncate (defaulted j a) = a
      \<and> financialSentimentCategory (defaulted j a) = neutral_impact
      \<and> sentimentScore (defaulted j a) = 0 \<and> relevanceToPrice (defaulted j a) = low"
    by (simp add: defaulted_def RawNewsArticle.truncate_def RawNewsArticle.extend_def
        NewsArticle.fields_def)
  have "\<exists>j. analyzeNewsWithGemini key as call = Inr (map (defaulted j) as)"
  proof (cases "configured key")
    case False
    then have "analyzeNewsWithGemini key as call =
        Inr (map (defaulted ''Sentiment analysis skipped due to configuration error.'') as)"
      by (simp add: analyzeNewsWithGemini_def)
    then show ?thesis ..
  next
    case True
    with assms have "call = Inl err" by simp
    with True have "analyzeNewsWithGemini key as call =
        Inr (map (defaulted (''Error analyzing sentiment: '' @ errorMessage err @ ''.'')) as)"
      by (cases "as = []") (simp_all add: analyzeNewsWithGemini_def)
    then show ?thesis ..
  qed
  then obtain j where "analyzeNewsWithGemini key as call = Inr (map (defaulted j) as)" ..
  then show ?thesis
    using d by simp
qed

theorem analyzeNewsWithGemini_failure_defaults_witness:
  "analyzeNewsWithGemini (Some ''anon-key'') [demoRaw ''a'' 100, demoRaw ''b'' 50]
       (Inl (Error ''HTTP error! status: 500'')) =
     Inr [defaulted ''Error analyzing sentiment: HTTP error! status: 500.'' (demoRaw ''a'' 100),
          defaulted ''Error analyzing sentiment: HTTP error! status: 500.'' (demoRaw ''b'' 50)]
   \<and> analyzeNewsWithGemini None [demoRaw ''a'' 100] (Inr []) =
     Inr [defaulted ''Sentiment analysis skipped due to configuration error.'' (demoRaw ''a'' 100)]
   \<and> (\<exists>res. analyzeNewsWithGemini None [demoRaw ''a'' 100] (Inr []) = Inr res
        \<and> length res = 1 \<and> RawNewsArticle.truncate (res ! 0) = demoRaw ''a'' 100
        \<and> financialSentimentCategory (res ! 0) = neutral_impact
        \<and> sentimentScore (res ! 0) = 0 \<and> relevanceToPrice (res ! 0) = low)"
proof -
  have h: "\<not> configured None \<or> (Inr [] :: thrown + NewsArticle list) = Inl (Error [])"
    by (simp add: configured_def)
  from analyzeNewsWithGemini_failure_defaults [OF h, of "[demoRaw ''a'' 100]"]
  have 3: "\<exists>res. analyzeNewsWithGemini None [demoRaw ''a'' 100] (Inr []) = Inr res
        \<and> length res = 1 \<and> RawNewsArticle.truncate (res ! 0) = demoRaw ''a'' 100
        \<and> financialSentimentCategory (res ! 0) = neutral_impact
        \<and> sentimentScore (res ! 0) = 0 \<and> relevanceToPrice (res ! 0) = low"
    by simp
  show ?thesis
    using 3 by (simp add: analyzeNewsWithGemini_def configured_def)
qed

section \<open>Properties of the rate-limited request queue\<close>

lemma queueInv_frame:
  assumes "queueInv s tnow sub"
    and "started s' = started s" and "REQUEST_QUEUE s' = REQUEST_QUEUE s"
    and "requestsThisSecond s' = requestsThisSecond s" and "resets s' = resets s"
    and "lastRequestTime s' = lastRequestTime s" and "tnow \<le> now"
  shows "queueInv s' now sub"
  using assms by (simp add: queueInv_def startedIn_def)

lemma resets_bound:
  assumes "queueInv s tnow sub" and "r \<in> set (resets s)"
  shows "r \<le> lastRequestTime s"
proof -
  from assms(1) have ne: "resets s \<noteq> []" and h: "hd (resets s) = lastRequestTime s"
    and t: "\<forall>r \<in> set (tl (resets s)). r + 1000 \<le> lastRequestTime s"
    by (simp_all add: queueInv_def)
  from ne assms(2) have "r = hd (resets s) \<or> r \<in> set (tl (resets s))"
    by (cases "resets s") auto
  with h t show ?thesis by auto
qed

lemma resets_startedIn:
  assumes "queueInv s tnow sub" and "r \<in> set (resets s)"
  shows "startedIn r s \<le> MAX_REQUESTS_PER_SECOND"
proof -
  from assms(1) have ne: "resets s \<noteq> []" and h: "hd (resets s) = lastRequestTime s"
    and c: "startedIn (lastRequestTime s) s \<le> requestsThisSecond s"
    and m: "requestsThisSecond s \<le> MAX_REQUESTS_PER_SECOND"
    and t: "\<forall>r \<in> set (tl (resets s)). startedIn r s \<le> MAX_REQUESTS_PER_SECOND"
    by (simp_all add: queueInv_def)
  from ne assms(2) have "r = hd (resets s) \<or> r \<in> set (tl (resets s))"
    by (cases "resets s") auto
  with h t c m show ?thesis by auto
qed

lemma processQueue_start_reset:
  assumes inv: "queueInv s tnow sub" and le: "tnow \<le> now"
    and q: "REQUEST_QUEUE s = request # rest"
    and reset: "now - lastRequestTime s \<ge> 1000"
  shows "queueInv (s\<lparr>isProcessingQueue := b, requestsThisSecond := 1, lastRequestTime := now,
            resets := now # resets s, REQUEST_QUEUE := rest,
            awaited := aw, started := started s @ [(request, now)]\<rparr>) now sub"
proof -
  from inv have old: "\<forall>p \<in> set (started s). snd p < lastRequestTime s + 1000"
    by (simp add: queueInv_def)
  with reset have before: "\<forall>p \<in> set (started s). snd p < now" by auto
  have rb: "\<forall>r \<in> set (resets s). r + 1000 \<le> now"
    using resets_bound [OF inv] reset by fastforce
  have rs: "\<forall>r \<in> set (resets s). startedIn r s \<le> MAX_REQUESTS_PER_SECOND"
    using resets_startedIn [OF inv] by blast
  have f: "filter (\<lambda>p. now \<le> snd p \<and> snd p < now + 1000) (started s) = []"
    using before by (auto simp: filter_empty_conv)
  show ?thesis
    unfolding queueInv_def startedIn_def
    using inv q before rb rs f
    by (auto simp: queueInv_def startedIn_def MAX_REQUESTS_PER_SECOND_def)
qed

lemma processQueue_start_same:
  assumes inv: "queueInv s tnow sub" and le: "tnow \<le> now"
    and q: "REQUEST_QUEUE s = request # rest"
    and same: "\<not> now - lastRequestTime s \<ge> 1000"
    and room: "\<not> requestsThisSecond s \<ge> MAX_REQUESTS_PER_SECOND"
  shows "queueInv (s\<lparr>isProcessingQueue := b, REQUEST_QUEUE := rest,
            requestsThisSecond := requestsThisSecond s + 1,
            awaited := aw, started := started s @ [(request, now)]\<rparr>) now sub"
proof -
  have rb: "\<forall>r \<in> set (tl (resets s)). r + 1000 \<le> now"
    using inv le by (auto simp: queueInv_def)
  show ?thesis
    unfolding queueInv_def startedIn_def
    using inv q same room rb le
    by (auto simp: queueInv_def startedIn_def MAX_REQUESTS_PER_SECOND_def)
qed

lemma processQueue_inv:
  assumes inv: "queueInv s tnow sub" and le: "tnow \<le> now"
  shows "queueInv (processQueue now s) now sub"
proof (cases "REQUEST_QUEUE s")
  case Nil
  then have "processQueue now s = s\<lparr>isProcessingQueue := False\<rparr>"
    by (simp add: processQueue_def)
  then show ?thesis
    using queueInv_frame [OF inv _ _ _ _ _ le, of "s\<lparr>isProcessingQueue := False\<rparr>"] by simp
next
  case (Cons request rest)
  show ?thesis
  proof (cases "now - lastRequestTime s \<ge> 1000")
    case True
    then have "processQueue now s =
        s\<lparr>isProcessingQueue := True, requestsThisSecond := 1, lastRequestTime := now,
            resets := now # resets s, REQUEST_QUEUE := rest,
            awaited := awaited s @ [request], started := started s @ [(request, now)]\<rparr>"
      using Cons by (simp add: processQueue_def resetRequestCount_def Let_def
          MAX_REQUESTS_PER_SECOND_def)
    then show ?thesis
      using processQueue_start_reset [OF inv le Cons True] by simp
  next
    case False
    show ?thesis
    proof (cases "requestsThisSecond s \<ge> MAX_REQUESTS_PER_SECOND")
      case True
      then have "processQueue now s =
          s\<lparr>isProcessingQueue := False, timers := timers s @ [now + 1000]\<rparr>"
        using Cons False by (simp add: processQueue_def resetRequestCount_def Let_def)
      then show ?thesis
        using queueInv_frame [OF inv _ _ _ _ _ le,
            of "s\<lparr>isProcessingQueue := False, timers := timers s @ [now + 1000]\<rparr>"] by simp
    next
      case room: False
      then have "processQueue now s =
          s\<lparr>isProcessingQueue := True, REQUEST_QUEUE := rest,
            requestsThisSecond := requestsThisSecond s + 1,
            awaited := awaited s @ [request], started := started s @ [(request, now)]\<rparr>"
        using Cons False by (simp add: processQueue_def resetRequestCount_def Let_def)
      then show ?thesis
        using processQueue_start_same [OF inv le Cons False room] by simp
    qed
  qed
qed

lemma queueInv_push:
  assumes "queueInv s tnow sub"
  shows "queueInv (s\<lparr>REQUEST_QUEUE := REQUEST_QUEUE s @ [r]\<rparr>) tnow (sub @ [r])"
  using assms by (simp add: queueInv_def startedIn_def)

lemma step_inv:
  assumes inv: "queueInv s tnow sub" and le: "tnow \<le> clock e" and st: "step e s = Some s'"
  shows "queueInv s' (clock e) (sub @ submitted [e])"
proof (cases e)
  case (QueueRequest r now)
  let ?s1 = "s\<lparr>REQUEST_QUEUE := REQUEST_QUEUE s @ [r]\<rparr>"
  have i1: "queueInv ?s1 tnow (sub @ [r])"
    by (rule queueInv_push [OF inv])
  from le QueueRequest have le': "tnow \<le> now" by simp
  from st QueueRequest have "s' = processQueue now ?s1 \<or> s' = ?s1"
    by (auto simp: Let_def split: if_splits)
  then show ?thesis
  proof
    assume "s' = processQueue now ?s1"
    then show ?thesis
      using processQueue_inv [OF i1 le'] QueueRequest by simp
  next
    assume "s' = ?s1"
    then show ?thesis
      using queueInv_frame [OF i1 _ _ _ _ _ le', of ?s1] QueueRequest by simp
  qed
next
  case (Settled r now)
  let ?s1 = "s\<lparr>awaited := remove1 r (awaited s), isProcessingQueue := False\<rparr>"
  from le Settled have le': "tnow \<le> now" by simp
  have i1: "queueInv ?s1 tnow sub"
    using queueInv_frame [OF inv _ _ _ _ _ order_refl, of ?s1] by simp
  from st Settled have "s' = processQueue now ?s1"
    by (auto split: if_splits)
  then show ?thesis
    using processQueue_inv [OF i1 le'] Settled by simp
next
  case (Timeout due now)
  let ?s1 = "s\<lparr>timers := remove1 due (timers s)\<rparr>"
  from le Timeout have le': "tnow \<le> now" by simp
  have i1: "queueInv ?s1 tnow sub"
    using queueInv_frame [OF inv _ _ _ _ _ order_refl, of ?s1] by simp
  from st Timeout have "s' = processQueue now ?s1"
    by (auto split: if_splits)
  then show ?thesis
    using processQueue_inv [OF i1 le'] Timeout by simp
qed

lemma submitted_Cons: "submitted (e # es) = submitted [e] @ submitted es"
  by (cases e) simp_all

lemma initQueue_inv: "queueInv (initQueue t0) t0 []"
  by (simp add: queueInv_def initQueue_def startedIn_def)

lemma covered_frame:
  assumes "covered s" and "started s' = started s" and "resets s' = resets s"
  shows "covered s'"
  using assms by (simp add: covered_def)

lemma processQueue_covered:
  assumes inv: "queueInv s tnow sub" and cov: "covered s" and le: "tnow \<le> now"
  shows "covered (processQueue now s)"
proof -
  from inv have h: "resets s \<noteq> []" "hd (resets s) = lastRequestTime s" "lastRequestTime s \<le> tnow"
    by (simp_all add: queueInv_def)
  then have lr: "lastRequestTime s \<in> set (resets s)"
    by (cases "resets s") auto
  have w: "\<exists>r \<in> set (resets s). r \<le> now \<and> now < r + 1000"
    if "\<not> 1000 \<le> now - lastRequestTime s"
    using that lr h(3) le by (intro bexI [of _ "lastRequestTime s"]) auto
  show ?thesis
    using cov w
    by (auto simp: processQueue_def resetRequestCount_def covered_def Let_def
        split: list.splits)
qed

lemma step_covered:
  assumes inv: "queueInv s tnow sub" and cov: "covered s" and le: "tnow \<le> clock e"
    and st: "step e s = Some s'"
  shows "covered s'"
proof (cases e)
  case (QueueRequest r now)
  let ?s1 = "s\<lparr>REQUEST_QUEUE := REQUEST_QUEUE s @ [r]\<rparr>"
  have i1: "queueInv ?s1 tnow (sub @ [r])" by (rule queueInv_push [OF inv])
  have c1: "covered ?s1" using covered_frame [OF cov, of ?s1] by simp
  from le QueueRequest have le': "tnow \<le> now" by simp
  from st QueueRequest have "s' = processQueue now ?s1 \<or> s' = ?s1"
    by (auto simp: Let_def split: if_splits)
  then show ?thesis
    using processQueue_covered [OF i1 c1 le'] c1 by auto
next
  case (Settled r now)
  let ?s1 = "s\<lparr>awaited := remove1 r (awaited s), isProcessingQueue := False\<rparr>"
  from le Settled have le': "tnow \<le> now" by simp
  have i1: "queueInv ?s1 tnow sub"
    using queueInv_frame [OF inv _ _ _ _ _ order_refl, of ?s1] by simp
  have c1: "covered ?s1" using covered_frame [OF cov, of ?s1] by simp
  from st Settled have "s' = processQueue now ?s1"
    by (auto split: if_splits)
  then show ?thesis
    using processQueue_covered [OF i1 c1 le'] by simp
next
  case (Timeout due now)
  let ?s1 = "s\<lparr>timers := remove1 due (timers s)\<rparr>"
  from le Timeout have le': "tnow \<le> now" by simp
  have i1: "queueInv ?s1 tnow sub"
    using queueInv_frame [OF inv _ _ _ _ _ order_refl, of ?s1] by simp
  have c1: "covered ?s1" using covered_frame [OF cov, of ?s1] by simp
  from st Timeout have "s' = processQueue now ?s1"
    by (auto split: if_splits)
  then show ?thesis
    using processQueue_covered [OF i1 c1 le'] by simp
qed

lemma run_inv_covered:
  assumes "queueInv s tnow sub" and "covered s" and "sorted (tnow # map clock evs)"
    and "run evs s = Some s'"
  shows "\<exists>t. queueInv s' t (sub @ submitted evs) \<and> covered s'"
  using assms
proof (induction evs arbitrary: s tnow sub)
  case Nil
  then show ?case by auto
next
  case (Cons e evs)
  from Cons.prems(4) obtain s1 where s1: "step e s = Some s1" and r: "run evs s1 = Some s'"
    by (auto split: option.splits)
  from Cons.prems(3) have le: "tnow \<le> clock e" and srt: "sorted (clock e # map clock evs)"
    by simp_all
  have i: "queueInv s1 (clock e) (sub @ submitted [e])"
    by (rule step_inv [OF Cons.prems(1) le s1])
  have c: "covered s1"
    by (rule step_covered [OF Cons.prems(1) Cons.prems(2) le s1])
  from Cons.IH [OF i c srt r] show ?case
    by (simp add: submitted_Cons [of e evs])
qed

lemma filter_two:
  assumes "\<forall>x \<in> set xs. P x \<longrightarrow> Q1 x \<or> Q2 x"
  shows "length (filter P xs) \<le> length (filter Q1 xs) + length (filter Q2 xs)"
  using assms by (induction xs) auto

lemma gap_at_most_two:
  assumes "sorted_wrt (\<lambda>a b. b + 1000 \<le> a) rs"
    and "\<forall>r \<in> set rs. t - 1000 < r \<and> r < t + (1000 :: int)"
  shows "length rs \<le> 2"
proof (cases rs)
  case Nil
  then show ?thesis by simp
next
  case (Cons a as)
  note A = Cons
  show ?thesis
  proof (cases as)
    case Nil
    with A show ?thesis by simp
  next
    case (Cons b bs)
    note B = Cons
    show ?thesis
    proof (cases bs)
      case Nil
      with A B show ?thesis by simp
    next
      case (Cons c cs)
      with A B assms have "b + 1000 \<le> a" "c + 1000 \<le> b" "a < t + 1000" "t - 1000 < c"
        by auto
      then have False by linarith
      then show ?thesis ..
    qed
  qed
qed

lemma rolling_window:
  assumes inv: "queueInv s tnow sub" and cov: "covered s"
  shows "startedIn t s \<le> 2 * MAX_REQUESTS_PER_SECOND"
proof -
  define A where "A = filter (\<lambda>r. t - 1000 < r \<and> r < t + 1000) (resets s)"
  let ?W = "\<lambda>r p. r \<le> snd p \<and> snd (p :: 'a \<times> int) < r + 1000"
  from inv have "sorted_wrt (\<lambda>a b. b + 1000 \<le> a) (resets s)"
    by (simp add: queueInv_def)
  then have "sorted_wrt (\<lambda>a b. b + 1000 \<le> a) A"
    unfolding A_def by (rule sorted_wrt_filter)
  moreover have inA: "\<forall>r \<in> set A. t - 1000 < r \<and> r < t + 1000"
    by (simp add: A_def)
  ultimately have len: "length A \<le> 2" by (rule gap_at_most_two)
  have sub: "set A \<subseteq> set (resets s)" by (auto simp: A_def)
  have bound: "\<And>r. r \<in> set A \<Longrightarrow> length (filter (?W r) (started s)) \<le> MAX_REQUESTS_PER_SECOND"
    using resets_startedIn [OF inv] sub by (auto simp: startedIn_def)
  have cover: "\<forall>p \<in> set (started s). ?W t p \<longrightarrow> (\<exists>r \<in> set A. ?W r p)"
  proof (intro ballI impI)
    fix p assume p: "p \<in> set (started s)" and w: "?W t p"
    from cov p obtain r where r: "r \<in> set (resets s)" "r \<le> snd p" "snd p < r + 1000"
      by (auto simp: covered_def)
    with w have "r \<in> set A" by (simp add: A_def)
    with r show "\<exists>r \<in> set A. ?W r p" by blast
  qed
  consider "A = []" | a where "A = [a]" | a b where "A = [a, b]"
    using len by (cases A; cases "tl A"; cases "tl (tl A)") auto
  then have "length (filter (?W t) (started s)) \<le> 2 * MAX_REQUESTS_PER_SECOND"
  proof cases
    case 1
    with cover have "filter (?W t) (started s) = []"
      by (auto simp: filter_empty_conv)
    then show ?thesis by simp
  next
    case 2
    with cover have "\<forall>p \<in> set (started s). ?W t p \<longrightarrow> ?W a p \<or> ?W a p" by auto
    from filter_two [OF this] bound [of a] 2 show ?thesis by simp
  next
    case 3
    with cover have "\<forall>p \<in> set (started s). ?W t p \<longrightarrow> ?W a p \<or> ?W b p" by auto
    from filter_two [OF this] bound [of a] bound [of b] 3 show ?thesis by simp
  qed
  then show ?thesis by (simp add: startedIn_def)
qed

lemma initQueue_covered: "covered (initQueue t0)"
  by (simp add: covered_def initQueue_def)

text \<open>
  C1, as the code has it. After any history of events whose clock readings do not decrease,
  the requests started so far followed by those still queued are exactly the requests
  submitted, in submission order (requests start in FIFO order); the one-second windows that
  begin at the values of \<open>lastRequestTime\<close> (the module's load time and every reset of the
  counter) lie at least a second apart, and at most 30 requests are started in each; hence at
  most 60 requests are started in any rolling one-second window.
\<close>

theorem queue_fifo_fixed_window:
  assumes "run evs (initQueue t0) = Some s" and "sorted (t0 # map clock evs)"
  shows "map fst (started s) @ REQUEST_QUEUE s = submitted evs
     \<and> sorted_wrt (\<lambda>a b. b + 1000 \<le> a) (resets s)
     \<and> (\<forall>r \<in> set (resets s). startedIn r s \<le> MAX_REQUESTS_PER_SECOND)
     \<and> (\<forall>t. startedIn t s \<le> 2 * MAX_REQUESTS_PER_SECOND)"
proof -
  from run_inv_covered [OF initQueue_inv initQueue_covered assms(2) assms(1)]
  obtain t where inv: "queueInv s t (submitted evs)" and cov: "covered s" by auto
  then have "map fst (started s) @ REQUEST_QUEUE s = submitted evs"
    and "sorted_wrt (\<lambda>a b. b + 1000 \<le> a) (resets s)"
    by (simp_all add: queueInv_def)
  moreover have "\<forall>r \<in> set (resets s). startedIn r s \<le> MAX_REQUESTS_PER_SECOND"
    using resets_startedIn [OF inv] by blast
  moreover have "\<forall>t. startedIn t s \<le> 2 * MAX_REQUESTS_PER_SECOND"
    using rolling_window [OF inv cov] by blast
  ultimately show ?thesis by blast
qed

lemma burst_run:
  "map_option (\<lambda>s. (map fst (started s), REQUEST_QUEUE s, resets s, startedIn 0 s, startedIn 1000 s,
      startedIn 700 s)) (run burst (initQueue 0)) = Some ([0..<31], [], [1000, 0], 30, 1, 31)"
  by code_simp

lemma burst_sorted: "sorted (0 # map clock burst)"
  by code_simp

theorem queue_fifo_fixed_window_witness:
  "run burst (initQueue 0) \<noteq> None
   \<and> sorted (0 # map clock burst)
   \<and> map fst (started (the (run burst (initQueue 0)))) @ REQUEST_QUEUE (the (run burst (initQueue 0)))
       = submitted burst
   \<and> resets (the (run burst (initQueue 0))) = [1000, 0]
   \<and> startedIn 0 (the (run burst (initQueue 0))) \<le> MAX_REQUESTS_PER_SECOND
   \<and> startedIn 1000 (the (run burst (initQueue 0))) \<le> MAX_REQUESTS_PER_SECOND
   \<and> startedIn 700 (the (run burst (initQueue 0))) \<le> 2 * MAX_REQUESTS_PER_SECOND"
proof -
  from burst_run obtain s where s: "run burst (initQueue 0) = Some s"
    and r: "resets s = [1000, 0]"
    by (cases "run burst (initQueue 0)") auto
  from queue_fifo_fixed_window [OF s burst_sorted] r
  have "map fst (started s) @ REQUEST_QUEUE s = submitted burst
      \<and> startedIn 0 s \<le> MAX_REQUESTS_PER_SECOND \<and> startedIn 1000 s \<le> MAX_REQUESTS_PER_SECOND
      \<and> startedIn 700 s \<le> 2 * MAX_REQUESTS_PER_SECOND"
    by simp
  with r burst_sorted show ?thesis
    unfolding s by (intro conjI) simp_all
qed

text \<open>
  C1, as the claim states it, fails: in the burst the 31 requests start at 700, 710, ..., 1000,
  all within the one-second window that begins at 700, because the counter is set back to 0
  at time 1000, a second after the module was loaded.
\<close>

theorem queue_rolling_window_counterexample:
  "sorted (0 # map clock burst)
   \<and> map_option (startedIn 700) (run burst (initQueue 0)) = Some 31
   \<and> MAX_REQUESTS_PER_SECOND < 31"
  using burst_run burst_sorted
  by (cases "run burst (initQueue 0)") (auto simp: MAX_REQUESTS_PER_SECOND_def)

section \<open>Properties of binary64 rounding\<close>

lemma roundHalfEven_ge: "of_int k \<le> x \<Longrightarrow> k \<le> roundHalfEven x"
proof -
  assume "of_int k \<le> x"
  then have "k \<le> \<lfloor>x\<rfloor>" by (simp add: le_floor_iff)
  then show ?thesis by (simp add: roundHalfEven_def Let_def)
qed

lemma roundHalfEven_le: "x \<le> of_int k \<Longrightarrow> roundHalfEven x \<le> k"
proof -
  assume a: "x \<le> of_int k"
  then have f: "\<lfloor>x\<rfloor> \<le> k" by (simp add: floor_le_iff)
  show ?thesis
  proof (cases "\<lfloor>x\<rfloor> = k")
    case True
    with a have "x - of_int \<lfloor>x\<rfloor> \<le> 0" by simp
    then show ?thesis using True by (simp add: roundHalfEven_def Let_def)
  next
    case False
    with f have "\<lfloor>x\<rfloor> + 1 \<le> k" by simp
    then show ?thesis using f by (simp add: roundHalfEven_def Let_def)
  qed
qed

lemma roundHalfEven_of_int: "roundHalfEven (of_int n) = n"
  by (simp add: roundHalfEven_def)

lemma roundHalfEven_error: "\<bar>of_int (roundHalfEven x) - x\<bar> \<le> 1 / 2"
proof -
  define n where "n = \<lfloor>x\<rfloor>"
  define r where "r = x - of_int n"
  have r: "0 \<le> r" "r < 1" unfolding r_def n_def by linarith+
  have x: "x = of_int n + r" by (simp add: r_def)
  have "roundHalfEven x = n \<and> r \<le> 1 / 2 \<or> roundHalfEven x = n + 1 \<and> 1 / 2 \<le> r"
    by (auto simp: roundHalfEven_def Let_def n_def r_def)
  then show ?thesis
    using r unfolding x by (auto simp: abs_if)
qed

lemma quotient_of_pos:
  assumes "0 < x"
  shows "0 < fst (quotient_of x)" "0 < snd (quotient_of x)"
    "x = of_int (fst (quotient_of x)) / of_int (snd (quotient_of x))"
proof -
  obtain p q where pq: "quotient_of x = (p, q)" by (cases "quotient_of x")
  then have q: "0 < q" by (rule quotient_of_denom_pos)
  from pq have x: "x = of_int p / of_int q" by (rule quotient_of_div)
  from assms x q have "0 < p" by (simp add: zero_less_divide_iff)
  with q x pq show "0 < fst (quotient_of x)" "0 < snd (quotient_of x)"
    "x = of_int (fst (quotient_of x)) / of_int (snd (quotient_of x))" by simp_all
qed

lemma ilog2_le:
  assumes "0 < x"
  shows "2 powi (ilog2 x) \<le> x"
proof -
  let ?p = "fst (quotient_of x)" and ?q = "snd (quotient_of x)"
  let ?l = "bitlen ?p - bitlen ?q"
  note pq = quotient_of_pos [OF assms]
  show ?thesis
  proof (cases "2 powi ?l \<le> x")
    case True
    then show ?thesis by (simp add: ilog2_def Let_def)
  next
    case False
    from bitlen_bounds [OF pq(1)] have p: "2 ^ nat (bitlen ?p - 1) \<le> ?p" by simp
    from bitlen_bounds [OF pq(2)] have q: "?q < 2 ^ nat (bitlen ?q)" by simp
    have bp: "1 \<le> bitlen ?p" using pq(1) by (simp add: bitlen_alt_def)
    have bq: "0 \<le> bitlen ?q" by (rule bitlen_nonneg)
    have p': "(2::rat) powi (bitlen ?p - 1) \<le> of_int ?p"
    proof -
      have "(2::rat) powi (bitlen ?p - 1) = 2 ^ nat (bitlen ?p - 1)"
        using bp by (simp add: power_int_nonneg_exp)
      also have "\<dots> = of_int (2 ^ nat (bitlen ?p - 1))" by simp
      also have "\<dots> \<le> of_int ?p" using p by (simp only: of_int_le_iff)
      finally show ?thesis .
    qed
    have q': "of_int ?q \<le> (2::rat) powi (bitlen ?q)"
    proof -
      have "of_int ?q \<le> (of_int (2 ^ nat (bitlen ?q)) :: rat)"
        using q by (simp only: of_int_le_iff)
      also have "\<dots> = 2 powi (bitlen ?q)" using bq by (simp add: power_int_nonneg_exp)
      finally show ?thesis .
    qed
    have "(2::rat) powi (?l - 1) = 2 powi (bitlen ?p - 1) / 2 powi (bitlen ?q)"
      using power_int_diff [of "2::rat" "bitlen ?p - 1" "bitlen ?q"] by (simp add: algebra_simps)
    also have "\<dots> \<le> of_int ?p / of_int ?q"
      using p' q' pq(1) pq(2) by (intro frac_le) simp_all
    also have "\<dots> = x" using pq(3) by simp
    finally show ?thesis using False by (simp add: ilog2_def Let_def)
  qed
qed

lemma ilog2_gt:
  assumes "0 < x"
  shows "x < 2 powi (ilog2 x + 1)"
proof -
  let ?p = "fst (quotient_of x)" and ?q = "snd (quotient_of x)"
  let ?l = "bitlen ?p - bitlen ?q"
  note pq = quotient_of_pos [OF assms]
  show ?thesis
  proof (cases "2 powi ?l \<le> x")
    case False
    then show ?thesis by (simp add: ilog2_def Let_def)
  next
    case True
    from bitlen_bounds [OF pq(1)] have p: "?p < 2 ^ nat (bitlen ?p)" by simp
    from bitlen_bounds [OF pq(2)] have q: "2 ^ nat (bitlen ?q - 1) \<le> ?q" by simp
    have bq: "1 \<le> bitlen ?q" using pq(2) by (simp add: bitlen_alt_def)
    have bp: "0 \<le> bitlen ?p" by (rule bitlen_nonneg)
    have p': "of_int ?p < (2::rat) powi (bitlen ?p)"
    proof -
      have "of_int ?p < (of_int (2 ^ nat (bitlen ?p)) :: rat)"
        using p by (simp only: of_int_less_iff)
      also have "\<dots> = 2 powi (bitlen ?p)" using bp by (simp add: power_int_nonneg_exp)
      finally show ?thesis .
    qed
    have q': "(2::rat) powi (bitlen ?q - 1) \<le> of_int ?q"
    proof -
      have "(2::rat) powi (bitlen ?q - 1) = 2 ^ nat (bitlen ?q - 1)"
        using bq by (simp add: power_int_nonneg_exp)
      also have "\<dots> = of_int (2 ^ nat (bitlen ?q - 1))" by simp
      also have "\<dots> \<le> of_int ?q" using q by (simp only: of_int_le_iff)
      finally show ?thesis .
    qed
    have "x = of_int ?p / of_int ?q" using pq(3) by simp
    also have "\<dots> < 2 powi (bitlen ?p) / 2 powi (bitlen ?q - 1)"
      using p' q' pq(1) pq(2) by (intro frac_less) simp_all
    also have "\<dots> = 2 powi (?l + 1)"
      using power_int_diff [of "2::rat" "bitlen ?p" "bitlen ?q - 1"] by (simp add: algebra_simps)
    finally show ?thesis using True by (simp add: ilog2_def Let_def)
  qed
qed

lemma pow2_less_cancel:
  assumes "(2::rat) powi m < 2 powi n"
  shows "m < n"
proof (rule ccontr)
  assume "\<not> m < n"
  then have "n \<le> m" by simp
  then have "(2::rat) powi n \<le> 2 powi m" by (intro power_int_increasing) simp_all
  with assms show False by simp
qed

lemma round64_nonneg:
  assumes "0 \<le> x"
  shows "0 \<le> round64 x"
proof (cases "x = 0")
  case True
  then show ?thesis by (simp add: round64_def)
next
  case False
  define e where "e = max (ilog2 \<bar>x\<bar> - 52) (- 1074)"
  have "0 \<le> x / 2 powi e" using assms by simp
  then have "0 \<le> roundHalfEven (x / 2 powi e)"
    using roundHalfEven_ge [of 0 "x / 2 powi e"] by simp
  then have "0 \<le> of_int (roundHalfEven (x / 2 powi e)) * (2::rat) powi e"
    by simp
  then show ?thesis using False by (simp add: round64_def Let_def e_def)
qed

lemma ilog2_le_zero:
  assumes "0 < x" and "x \<le> 1"
  shows "ilog2 x \<le> 0"
proof (rule ccontr)
  assume "\<not> ilog2 x \<le> 0"
  then have "0 < ilog2 x" by simp
  then have "1 < (2::rat) powi ilog2 x" by (intro one_less_power_int) simp_all
  with ilog2_le [OF assms(1)] assms(2) show False by simp
qed

lemma round64_le_one:
  assumes "0 \<le> x" and "x \<le> 1"
  shows "round64 x \<le> 1"
proof (cases "x = 0")
  case True
  then show ?thesis by (simp add: round64_def)
next
  case False
  with assms have pos: "0 < x" by simp
  define e where "e = max (ilog2 \<bar>x\<bar> - 52) (- 1074)"
  have "ilog2 \<bar>x\<bar> \<le> 0" using ilog2_le_zero [OF pos assms(2)] pos by simp
  then have e: "e \<le> 0" by (simp add: e_def)
  define k where "k = nat (- e)"
  have pk: "(2::rat) powi e = 1 / 2 ^ k"
    using e by (simp add: k_def power_int_def inverse_eq_divide power_one_over)
  have "x / 2 powi e = x * 2 ^ k" by (simp add: pk)
  also have "\<dots> \<le> 1 * 2 ^ k" using assms(2) by (intro mult_right_mono) simp_all
  also have "\<dots> = of_int (2 ^ k)" by simp
  finally have "roundHalfEven (x / 2 powi e) \<le> 2 ^ k" by (rule roundHalfEven_le)
  then have "(of_int (roundHalfEven (x / 2 powi e)) :: rat) \<le> of_int (2 ^ k)"
    by (simp only: of_int_le_iff)
  then have "of_int (roundHalfEven (x / 2 powi e)) * (2::rat) powi e \<le> of_int (2 ^ k) * 2 powi e"
    by (intro mult_right_mono) simp_all
  also have "\<dots> = 1" by (simp add: pk)
  finally show ?thesis using False by (simp add: round64_def Let_def e_def)
qed

lemma round64_of_int:
  assumes "\<bar>n\<bar> < 2 ^ 53"
  shows "round64 (of_int n) = of_int n"
proof (cases "n = 0")
  case True
  then show ?thesis by (simp add: round64_def)
next
  case False
  define x :: rat where "x = of_int n"
  have x0: "x \<noteq> 0" and pos: "0 < \<bar>x\<bar>" using False by (simp_all add: x_def)
  define e where "e = max (ilog2 \<bar>x\<bar> - 52) (- 1074)"
  have "\<bar>x\<bar> < 2 powi 53"
  proof -
    have "\<bar>x\<bar> = of_int \<bar>n\<bar>" by (simp add: x_def)
    also have "\<dots> < of_int (2 ^ 53)" using assms by (simp only: of_int_less_iff)
    finally show ?thesis by simp
  qed
  with ilog2_le [OF pos] have "(2::rat) powi ilog2 \<bar>x\<bar> < 2 powi 53" by simp
  then have "ilog2 \<bar>x\<bar> < 53"
    by (rule pow2_less_cancel)
  then have e: "e \<le> 0" by (simp add: e_def)
  define k where "k = nat (- e)"
  have pk: "(2::rat) powi e = 1 / 2 ^ k"
    using e by (simp add: k_def power_int_def inverse_eq_divide power_one_over)
  have "x / 2 powi e = of_int (n * 2 ^ k)" by (simp add: pk x_def)
  then have "roundHalfEven (x / 2 powi e) = n * 2 ^ k"
    by (simp only: roundHalfEven_of_int)
  then have "of_int (roundHalfEven (x / 2 powi e)) * (2::rat) powi e = x"
    by (simp add: pk x_def)
  then show ?thesis using x0 by (simp add: round64_def Let_def e_def x_def)
qed

lemma round64_error:
  assumes "2 powi (- 1022) \<le> \<bar>x\<bar>"
  shows "\<bar>round64 x - x\<bar> \<le> \<bar>x\<bar> / 2 ^ 53"
proof -
  have pos: "0 < \<bar>x\<bar>"
    using assms zero_less_power_int [of "2::rat" "- 1022"] by linarith
  then have x0: "x \<noteq> 0" by simp
  define l where "l = ilog2 \<bar>x\<bar>"
  have "(2::rat) powi (- 1022) < 2 powi (l + 1)"
    using assms ilog2_gt [OF pos] by (simp add: l_def)
  then have "- 1022 < l + 1" by (rule pow2_less_cancel)
  then have e: "max (l - 52) (- 1074) = l - 52" by simp
  define P :: rat where "P = 2 powi (l - 52)"
  have Ppos: "0 < P" by (simp add: P_def)
  have "P = 2 powi l / 2 ^ 52"
    using power_int_diff [of "2::rat" l 52] by (simp add: P_def)
  also have "\<dots> \<le> \<bar>x\<bar> / 2 ^ 52"
    using ilog2_le [OF pos] by (simp add: l_def divide_right_mono)
  finally have Pb: "P / 2 \<le> \<bar>x\<bar> / 2 ^ 53" by simp
  define m where "m = roundHalfEven (x / P)"
  have r: "round64 x = of_int m * P"
    using x0 e by (simp add: round64_def Let_def l_def P_def m_def)
  have "\<bar>of_int m - x / P\<bar> \<le> 1 / 2"
    unfolding m_def by (rule roundHalfEven_error)
  then have "\<bar>of_int m - x / P\<bar> * P \<le> 1 / 2 * P"
    using Ppos by (intro mult_right_mono) simp_all
  moreover have "\<bar>of_int m - x / P\<bar> * P = \<bar>of_int m * P - x\<bar>"
  proof -
    have "\<bar>of_int m - x / P\<bar> * P = \<bar>(of_int m - x / P) * P\<bar>"
      using Ppos by (simp add: abs_mult)
    also have "(of_int m - x / P) * P = of_int m * P - x"
      using Ppos by (simp add: left_diff_distrib)
    finally show ?thesis .
  qed
  ultimately have "\<bar>of_int m * P - x\<bar> \<le> P / 2" by simp
  with Pb r show ?thesis by simp
qed

section \<open>Properties of the sentiment aggregator\<close>

text \<open>
  C2. When the generic cache has no unexpired entry under \<open>sentiment_<symbol>_<timeRange>\<close>,
  \<open>analyzeSentiment\<close> on the empty list returns overall 0, positive 0, negative 0, neutral 1,
  no trend points, and a structured summary whose \<open>hasContent\<close> is false.
\<close>

theorem analyzeSentiment_empty:
  assumes "getCachedData cache now (''sentiment_'' @ symb @ ''_'' @ timeRange) = None"
  shows "overall (analyzeSentiment cache tz now symb [] timeRange) = 0
     \<and> positive (analyzeSentiment cache tz now symb [] timeRange) = 0
     \<and> negative (analyzeSentiment cache tz now symb [] timeRange) = 0
     \<and> neutral (analyzeSentiment cache tz now symb [] timeRange) = 1
     \<and> trendData (analyzeSentiment cache tz now symb [] timeRange) = []
     \<and> (\<exists>s. structuredSummary (analyzeSentiment cache tz now symb [] timeRange) = Some s
            \<and> hasContent s = False)"
  using assms by (simp add: analyzeSentiment_def fallbackStructuredSummary_def)

theorem analyzeSentiment_empty_witness:
  "overall (analyzeSentiment Map.empty 0 1700000000000 ''AAPL'' [] ''24h'') = 0
   \<and> neutral (analyzeSentiment Map.empty 0 1700000000000 ''AAPL'' [] ''24h'') = 1
   \<and> trendData (analyzeSentiment Map.empty 0 1700000000000 ''AAPL'' [] ''24h'') = []
   \<and> map_option hasContent
        (structuredSummary (analyzeSentiment Map.empty 0 1700000000000 ''AAPL'' [] ''24h'')) = Some False"
proof -
  have "getCachedData (Map.empty :: string \<rightharpoonup> SentimentData CacheItem) 1700000000000
          (''sentiment_'' @ ''AAPL'' @ ''_'' @ ''24h'') = None"
    by (simp add: getCachedData_def)
  from analyzeSentiment_empty [OF this, of 0] show ?thesis
    by auto
qed

lemma fraction_unit:
  assumes "c \<le> n" and "0 < n"
  shows "0 \<le> round64 (of_nat c / of_nat n) \<and> round64 (of_nat c / of_nat n) \<le> 1"
proof -
  have 0: "(0::rat) \<le> of_nat c / of_nat n" by simp
  have 1: "(of_nat c :: rat) / of_nat n \<le> 1" using assms by (simp add: divide_le_eq_1)
  show ?thesis using round64_nonneg [OF 0] round64_le_one [OF 0 1] by simp
qed

text \<open>
  C3. For a non-empty list and no unexpired cache entry, \<open>positive\<close>, \<open>negative\<close> and \<open>neutral\<close>
  are the numbers of bullish, of bearish and of neutral-impact or mixed articles, each divided
  by the number of articles (the binary64 quotient: the representable value nearest to the
  exact one), and each lies between 0 and 1.
\<close>

theorem analyzeSentiment_fractions:
  assumes "news \<noteq> []"
    and "getCachedData cache now (''sentiment_'' @ symb @ ''_'' @ timeRange) = None"
  shows "positive (analyzeSentiment cache tz now symb news timeRange) =
           round64 (of_nat (countCategory (\<lambda>c. c = bullish) news) / of_nat (length news))
     \<and> negative (analyzeSentiment cache tz now symb news timeRange) =
           round64 (of_nat (countCategory (\<lambda>c. c = bearish) news) / of_nat (length news))
     \<and> neutral (analyzeSentiment cache tz now symb news timeRange) =
           round64 (of_nat (countCategory (\<lambda>c. c = neutral_impact \<or> c = mixed) news) / of_nat (length news))
     \<and> 0 \<le> positive (analyzeSentiment cache tz now symb news timeRange)
     \<and> positive (analyzeSentiment cache tz now symb news timeRange) \<le> 1
     \<and> 0 \<le> negative (analyzeSentiment cache tz now symb news timeRange)
     \<and> negative (analyzeSentiment cache tz now symb news timeRange) \<le> 1
     \<and> 0 \<le> neutral (analyzeSentiment cache tz now symb news timeRange)
     \<and> neutral (analyzeSentiment cache tz now symb news timeRange) \<le> 1"
proof -
  let ?r = "analyzeSentiment cache tz now symb news timeRange"
  have n: "0 < length news" using assms(1) by simp
  have p: "positive ?r = round64 (of_nat (countCategory (\<lambda>c. c = bullish) news) / of_nat (length news))"
    using assms by (simp add: analyzeSentiment_def Let_def fdiv_def countCategory_def)
  have q: "negative ?r = round64 (of_nat (countCategory (\<lambda>c. c = bearish) news) / of_nat (length news))"
    using assms by (simp add: analyzeSentiment_def Let_def fdiv_def countCategory_def)
  have u: "neutral ?r = round64 (of_nat (countCategory (\<lambda>c. c = neutral_impact \<or> c = mixed) news) / of_nat (length news))"
    using assms by (simp add: analyzeSentiment_def Let_def fdiv_def countCategory_def)
  have c: "\<And>P. countCategory P news \<le> length news"
    by (simp add: countCategory_def)
  show ?thesis
    unfolding p q u using fraction_unit [OF c n] by simp
qed

lemma third_eval: "round64 (1 / 3) = 6004799503160661 / 18014398509481984"
  by code_simp

theorem analyzeSentiment_fractions_witness:
  "positive (analyzeSentiment Map.empty 0 1700000000000 ''AAPL'' threeArticles ''24h'')
       = 6004799503160661 / 18014398509481984
   \<and> negative (analyzeSentiment Map.empty 0 1700000000000 ''AAPL'' threeArticles ''24h'')
       = 6004799503160661 / 18014398509481984
   \<and> neutral (analyzeSentiment Map.empty 0 1700000000000 ''AAPL'' threeArticles ''24h'')
       = 6004799503160661 / 18014398509481984
   \<and> 0 \<le> positive (analyzeSentiment Map.empty 0 1700000000000 ''AAPL'' threeArticles ''24h'')
   \<and> positive (analyzeSentiment Map.empty 0 1700000000000 ''AAPL'' threeArticles ''24h'') \<le> 1"
proof -
  have ne: "threeArticles \<noteq> []" by (simp add: threeArticles_def)
  have miss: "getCachedData (Map.empty :: string \<rightharpoonup> SentimentData CacheItem) 1700000000000
          (''sentiment_'' @ ''AAPL'' @ ''_'' @ ''24h'') = None"
    by (simp add: getCachedData_def)
  have c: "countCategory (\<lambda>c. c = bullish) threeArticles = 1"
    "countCategory (\<lambda>c. c = bearish) threeArticles = 1"
    "countCategory (\<lambda>c. c = neutral_impact \<or> c = mixed) threeArticles = 1"
    "length threeArticles = 3"
    by (simp_all add: countCategory_def threeArticles_def article_def)
  from analyzeSentiment_fractions [OF ne miss, of 0] show ?thesis
    by (simp add: c third_eval)
qed

lemma scenario_overall:
  "fdiv (fadd (fadd 0 (literal (6 / 10))) (- literal (4 / 10))) 2 = 900719925474099 / 9007199254740992"
  by code_simp

lemma scenario_fractions: "fdiv 1 2 = 1 / 2" "fdiv 0 2 = 0"
  by code_simp+

lemma literal_tenth: "literal (1 / 10) = 3602879701896397 / 36028797018963968"
  by code_simp

text \<open>
  C8, as the code has it. For a bullish article with score \<open>0.6\<close> followed by a bearish one with
  score \<open>-0.4\<close> (and no unexpired cache entry), positive is 0.5, negative is 0.5, neutral is 0,
  and overall is \<open>(0 + 0.6 + -0.4) / 2\<close> in binary64 arithmetic, which is
  \<open>900719925474099 / 2^53\<close> (printed \<open>0.09999999999999998\<close>): \<open>2^-55\<close> less than the
  binary64 value of the literal \<open>0.1\<close>.
\<close>

theorem analyzeSentiment_scenario:
  assumes "getCachedData cache now (''sentiment_'' @ symb @ ''_'' @ timeRange) = None"
    and "financialSentimentCategory a = bullish" and "sentimentScore a = literal (6 / 10)"
    and "financialSentimentCategory b = bearish" and "sentimentScore b = - literal (4 / 10)"
  shows "overall (analyzeSentiment cache tz now symb [a, b] timeRange)
           = 900719925474099 / 9007199254740992
     \<and> overall (analyzeSentiment cache tz now symb [a, b] timeRange)
           = literal (1 / 10) - 1 / 2 ^ 55
     \<and> positive (analyzeSentiment cache tz now symb [a, b] timeRange) = 1 / 2
     \<and> negative (analyzeSentiment cache tz now symb [a, b] timeRange) = 1 / 2
     \<and> neutral (analyzeSentiment cache tz now symb [a, b] timeRange) = 0"
proof -
  let ?r = "analyzeSentiment cache tz now symb [a, b] timeRange"
  have "overall ?r = fdiv (fadd (fadd 0 (sentimentScore a)) (sentimentScore b)) 2"
    using assms(1) by (simp add: analyzeSentiment_def Let_def sumScores_def)
  also have "\<dots> = 900719925474099 / 9007199254740992"
    unfolding assms(3) assms(5) by (rule scenario_overall)
  finally have o: "overall ?r = 900719925474099 / 9007199254740992" .
  have p: "positive ?r = 1 / 2" "negative ?r = 1 / 2" "neutral ?r = 0"
    using assms by (simp_all add: analyzeSentiment_def Let_def scenario_fractions)
  show ?thesis
    by (simp add: o p literal_tenth)
qed

theorem analyzeSentiment_scenario_witness:
  "overall (analyzeSentiment Map.empty 0 1700000000000 ''AAPL'' scenario ''24h'')
       = 900719925474099 / 9007199254740992
   \<and> positive (analyzeSentiment Map.empty 0 1700000000000 ''AAPL'' scenario ''24h'') = 1 / 2
   \<and> negative (analyzeSentiment Map.empty 0 1700000000000 ''AAPL'' scenario ''24h'') = 1 / 2
   \<and> neutral (analyzeSentiment Map.empty 0 1700000000000 ''AAPL'' scenario ''24h'') = 0"
proof -
  have miss: "getCachedData (Map.empty :: string \<rightharpoonup> SentimentData CacheItem) 1700000000000
          (''sentiment_'' @ ''AAPL'' @ ''_'' @ ''24h'') = None"
    by (simp add: getCachedData_def)
  from analyzeSentiment_scenario [OF miss,
      of "article bullish (literal (6 / 10)) 1699999000000"
         "article bearish (- literal (4 / 10)) 1699990000000" 0]
  show ?thesis
    by (simp add: scenario_def article_def)
qed

text \<open>
  C8, as the claim states it, fails: the overall score of the scenario is not the number
  \<open>0.1\<close> of the source language, since \<open>0.6 + -0.4\<close> is \<open>0.19999999999999996\<close>.
\<close>

theorem analyzeSentiment_scenario_counterexample:
  "overall (analyzeSentiment Map.empty 0 1700000000000 ''AAPL'' scenario ''24h'')
       = 900719925474099 / 9007199254740992
   \<and> literal (1 / 10) = 3602879701896397 / 36028797018963968
   \<and> overall (analyzeSentiment Map.empty 0 1700000000000 ''AAPL'' scenario ''24h'')
       \<noteq> literal (1 / 10)"
proof -
  have "overall (analyzeSentiment Map.empty 0 1700000000000 ''AAPL'' scenario ''24h'')
       = fdiv (fadd (fadd 0 (literal (6 / 10))) (- literal (4 / 10))) 2"
    by (simp add: analyzeSentiment_def getCachedData_def Let_def sumScores_def scenario_def
        article_def)
  also have "\<dots> = 900719925474099 / 9007199254740992"
    by (rule scenario_overall)
  finally show ?thesis
    by (simp add: literal_tenth)
qed

section \<open>Properties of the trend buckets\<close>

lemma tiny_le: "(2::rat) powi (- 1022) \<le> 1 / 21600000"
proof -
  have "(2::rat) powi (- 1022) \<le> 2 powi (- 25)"
    by (intro power_int_increasing) simp_all
  also have "\<dots> \<le> 1 / 21600000" by simp
  finally show ?thesis .
qed

text \<open>
  For publication times within \<open>2^51\<close> ms of \<open>now\<close>, the two roundings in
  \<open>Math.floor(hoursAgo / hoursPerGroup)\<close> do not change the result: the group index is the
  age in milliseconds divided by the three hours, rounded down.
\<close>

lemma groupIndex_exact:
  assumes "\<bar>now - p\<bar> < 2 ^ 51"
  shows "groupIndex 3 now p = (now - p) div 10800000"
proof -
  define d where "d = now - p"
  define D :: rat where "D = of_int d"
  have dl: "\<bar>d\<bar> < 2 ^ 51" using assms by (simp add: d_def)
  then have "\<bar>d\<bar> < 2 ^ 53" by simp
  then have "round64 (of_int d) = of_int d" by (rule round64_of_int)
  then have sub: "fsub (of_int now) (of_int p) = D"
    by (simp add: fsub_def d_def D_def)
  define x1 where "x1 = round64 (D / 3600000)"
  define x2 where "x2 = round64 (x1 / 3)"
  have gi: "groupIndex 3 now p = \<lfloor>x2\<rfloor>"
    by (simp add: groupIndex_def hoursAgo_def fdiv_def sub x1_def x2_def)
  define k where "k = d div 10800000"
  define m where "m = d mod 10800000"
  have dk: "d = 10800000 * k + m" by (simp add: k_def m_def)
  have mb: "0 \<le> m" "m < 10800000" by (simp_all add: m_def)
  have "\<lfloor>x2\<rfloor> = k"
  proof (cases "m = 0")
    case True
    with dk have d3: "d = 3600000 * (3 * k)" by simp
    then have "D / 3600000 = of_int (3 * k)" by (simp add: D_def)
    moreover have "\<bar>3 * k\<bar> < 2 ^ 53" using dl d3 by (simp add: abs_mult)
    ultimately have "x1 = of_int (3 * k)" by (simp only: x1_def round64_of_int)
    then have "x1 / 3 = of_int k" by simp
    moreover have "\<bar>k\<bar> < 2 ^ 53" using dl d3 by (simp add: abs_mult)
    ultimately have "x2 = of_int k" by (simp only: x2_def round64_of_int)
    then show ?thesis by simp
  next
    case False
    with mb have m1: "1 \<le> m" "m \<le> 10799999" by simp_all
    define t :: rat where "t = D / 10800000"
    have tk: "t = of_int k + of_int m / 10800000"
      by (simp add: t_def D_def dk add_divide_distrib)
    have "(1::rat) \<le> of_int m" "(of_int m :: rat) \<le> 10799999"
      using m1 by simp_all
    then have lo: "of_int k + 1 / 10800000 \<le> t" and hi: "t \<le> of_int k + 1 - 1 / 10800000"
      unfolding tk by (simp_all add: field_simps)
    have d0: "d \<noteq> 0" using False by (auto simp: m_def)
    then have "1 \<le> \<bar>d\<bar>" by simp
    then have "(of_int 1 :: rat) \<le> of_int \<bar>d\<bar>" by (simp only: of_int_le_iff)
    then have D1: "1 \<le> \<bar>D\<bar>" by (simp add: D_def)
    have Dl: "\<bar>D\<bar> < 2 ^ 51"
    proof -
      have "\<bar>D\<bar> = of_int \<bar>d\<bar>" by (simp add: D_def)
      also have "\<dots> < of_int (2 ^ 51)" using dl by (simp only: of_int_less_iff)
      finally show ?thesis by simp
    qed
    have u: "D / 3600000 = 3 * t" by (simp add: t_def)
    have ta: "\<bar>t\<bar> = \<bar>D\<bar> / 10800000" by (simp add: t_def)
    have t1: "1 / 10800000 \<le> \<bar>t\<bar>" using D1 by (simp add: ta)
    have t2: "\<bar>t\<bar> < 2 ^ 51 / 10800000" using Dl by (simp add: ta)
    have "2 powi (- 1022) \<le> \<bar>D / 3600000\<bar>"
      using tiny_le t1 unfolding u by (simp add: abs_mult)
    from round64_error [OF this] have r1: "\<bar>x1 - 3 * t\<bar> \<le> \<bar>3 * t\<bar> / 2 ^ 53"
      by (simp add: x1_def u)
    have "x1 / 3 - t = (x1 - 3 * t) / 3" by simp
    then have "\<bar>x1 / 3 - t\<bar> = \<bar>x1 - 3 * t\<bar> / 3" by (simp only: abs_divide)
    moreover have "\<bar>3 * t\<bar> = 3 * \<bar>t\<bar>" by (simp add: abs_mult)
    ultimately have e1: "\<bar>x1 / 3 - t\<bar> \<le> \<bar>t\<bar> / 9007199254740992"
      using r1 by simp
    then have x1lo: "\<bar>t\<bar> / 2 \<le> \<bar>x1 / 3\<bar>" and x1hi: "\<bar>x1 / 3\<bar> \<le> 2 * \<bar>t\<bar>"
      by linarith+
    have "2 powi (- 1022) \<le> \<bar>x1 / 3\<bar>"
      using tiny_le t1 x1lo by linarith
    from round64_error [OF this] have r2: "\<bar>x2 - x1 / 3\<bar> \<le> \<bar>x1 / 3\<bar> / 9007199254740992"
      by (simp add: x2_def)
    have t3: "\<bar>t\<bar> < 2251799813685248 / 10800000"
      using t2 by simp
    have "\<bar>x2 - t\<bar> \<le> 3 * \<bar>t\<bar> / 9007199254740992"
      using r2 e1 x1hi by linarith
    also have "\<dots> < 1 / 10800000"
      using t3 by linarith
    finally have "\<bar>x2 - t\<bar> < 1 / 10800000" .
    with lo hi have "of_int k \<le> x2" "x2 < of_int k + 1" by linarith+
    then show ?thesis by (simp add: floor_unique)
  qed
  with gi show ?thesis by (simp add: k_def d_def)
qed

lemma periodStartEpoch_24h:
  assumes "\<bar>now - p\<bar> < 2 ^ 51"
  shows "periodStartEpoch ''24h'' tz now p =
         setHours tz now (getHours tz now - getHours tz now mod 3)
           - (now - p) div 10800000 * 10800000"
  by (simp add: periodStartEpoch_def Let_def setHours_def groupIndex_exact [OF assms]
      algebra_simps)

text \<open>
  \<open>timeGroups\<close> holds one entry for each period start that occurs, with exactly the articles
  of that period in their order in \<open>news\<close>.
\<close>

lemma addToGroup_keys:
  "map fst (addToGroup k a gs) = (if k \<in> fst ` set gs then map fst gs else map fst gs @ [k])"
proof (induction gs)
  case Nil
  then show ?case by simp
next
  case (Cons g gs)
  obtain k' as where g: "g = (k', as)" by (cases g)
  show ?case
  proof (cases "k' = k")
    case True
    then show ?thesis by (simp add: g)
  next
    case False
    then have "k \<in> fst ` set (g # gs) \<longleftrightarrow> k \<in> fst ` set gs" by (auto simp: g)
    with False Cons.IH show ?thesis by (simp add: g)
  qed
qed

lemma addToGroup_map_of:
  "map_of (addToGroup k a gs) k' =
     (if k' = k then Some ((case map_of gs k of None \<Rightarrow> [] | Some as \<Rightarrow> as) @ [a])
      else map_of gs k')"
  by (induction gs) auto

lemma addToGroup_distinct:
  "distinct (map fst gs) \<Longrightarrow> distinct (map fst (addToGroup k a gs))"
  by (simp add: addToGroup_keys)

lemma groups_fold:
  fixes f :: "NewsArticle \<Rightarrow> int"
  assumes "distinct (map fst gs)"
  shows "distinct (map fst (foldl (\<lambda>gs a. addToGroup (f a) a gs) gs xs))
     \<and> fst ` set (foldl (\<lambda>gs a. addToGroup (f a) a gs) gs xs) = fst ` set gs \<union> f ` set xs
     \<and> (\<forall>k. map_of (foldl (\<lambda>gs a. addToGroup (f a) a gs) gs xs) k =
            (if filter (\<lambda>a. f a = k) xs = [] then map_of gs k
             else Some ((case map_of gs k of None \<Rightarrow> [] | Some as \<Rightarrow> as)
                          @ filter (\<lambda>a. f a = k) xs)))"
  using assms
proof (induction xs arbitrary: gs)
  case Nil
  then show ?case by simp
next
  case (Cons x xs)
  let ?g = "addToGroup (f x) x gs"
  have d: "distinct (map fst ?g)" by (rule addToGroup_distinct [OF Cons.prems])
  have "set (map fst ?g) = insert (f x) (set (map fst gs))"
    unfolding addToGroup_keys by auto
  then have k: "fst ` set ?g = insert (f x) (fst ` set gs)" by simp
  from Cons.IH [OF d] show ?case
    by (auto simp: k addToGroup_map_of split: option.splits)
qed

lemma timeGroups_distinct: "distinct (map fst (timeGroups r tz now news))"
  unfolding timeGroups_def
  using groups_fold [of "[]" "\<lambda>a. periodStartEpoch r tz now (publishedAt a)" news] by simp

lemma timeGroups_keys:
  "fst ` set (timeGroups r tz now news) = (\<lambda>a. periodStartEpoch r tz now (publishedAt a)) ` set news"
  unfolding timeGroups_def
  using groups_fold [of "[]" "\<lambda>a. periodStartEpoch r tz now (publishedAt a)" news] by simp

lemma timeGroups_members:
  assumes "(k, as) \<in> set (timeGroups r tz now news)"
  shows "as = filter (\<lambda>a. periodStartEpoch r tz now (publishedAt a) = k) news \<and> as \<noteq> []"
proof -
  from assms have "map_of (timeGroups r tz now news) k = Some as"
    using timeGroups_distinct [of r tz now news] by simp
  moreover have "map_of (timeGroups r tz now news) k =
      (if filter (\<lambda>a. periodStartEpoch r tz now (publishedAt a) = k) news = [] then None
       else Some (filter (\<lambda>a. periodStartEpoch r tz now (publishedAt a) = k) news))"
    unfolding timeGroups_def
    using groups_fold [of "[]" "\<lambda>a. periodStartEpoch r tz now (publishedAt a)" news] by simp
  ultimately show ?thesis by (auto split: if_splits)
qed

lemma trendPoints_time: "map time (trendPoints gs) = map fst (sort_key fst gs)"
  by (simp add: trendPoints_def case_prod_beta)

lemma trendPoints_ordered:
  assumes "distinct (map fst gs)"
  shows "sorted (map time (trendPoints gs)) \<and> distinct (map time (trendPoints gs))"
proof -
  have "sorted (map fst (sort_key fst gs))" by (rule sorted_sort_key)
  moreover have "distinct (map fst (sort_key fst gs))"
    using assms by (simp add: distinct_map)
  ultimately show ?thesis by (simp add: trendPoints_time)
qed

lemma trendPoints_member:
  assumes "pt \<in> set (trendPoints gs)"
  shows "\<exists>as. (time pt, as) \<in> set gs \<and> articles pt = length as
     \<and> sentiment pt = fdiv (sumScores (map sentimentScore as)) (of_nat (max 1 (length as)))"
  using assms by (auto simp: trendPoints_def)

lemma div_far_apart:
  fixes x y :: int
  assumes "x div 10800000 = y div 10800000"
  shows "\<bar>x - y\<bar> < 10800000"
proof -
  have "x = 10800000 * (x div 10800000) + x mod 10800000" by simp
  moreover have "y = 10800000 * (x div 10800000) + y mod 10800000" using assms by simp
  moreover have "0 \<le> x mod 10800000" "x mod 10800000 < 10800000"
    "0 \<le> y mod 10800000" "y mod 10800000 < 10800000" by simp_all
  ultimately show ?thesis by linarith
qed

text \<open>
  C6, amended. In a 24h-range computation on any non-empty list (no unexpired cache entry,
  publication times within \<open>2^51\<close> ms of \<open>now\<close>) the trend has one point for each bucket that
  occurs, in ascending order of time, and each point counts exactly the articles of its
  bucket and carries the mean of their scores. The buckets are the cells of a grid of
  consecutive 3-hour intervals of publication time: two articles are counted in the same
  point exactly when no boundary of the grid lies between their publication times. Hence two
  articles published 3 hours or more apart, in particular 4 hours apart, are never counted in
  the same point, while two articles published 1 hour apart are counted in the same point
  only when no boundary falls between them. Where the boundaries lie relative to the clock is
  not part of the statement.
\<close>

theorem trend_buckets_24h:
  assumes "news \<noteq> []"
    and "getCachedData cache now (''sentiment_'' @ symb @ ''_'' @ ''24h'') = None"
    and "\<forall>a \<in> set news. \<bar>now - publishedAt a\<bar> < 2 ^ 51"
  shows "sorted (map time (trendData (analyzeSentiment cache tz now symb news ''24h'')))
     \<and> distinct (map time (trendData (analyzeSentiment cache tz now symb news ''24h'')))
     \<and> time ` set (trendData (analyzeSentiment cache tz now symb news ''24h''))
          = bucketOf tz now ` set news
     \<and> (\<forall>pt \<in> set (trendData (analyzeSentiment cache tz now symb news ''24h'')).
           articles pt = length (filter (\<lambda>a. bucketOf tz now a = time pt) news)
           \<and> 0 < articles pt
           \<and> sentiment pt =
               fdiv (sumScores (map sentimentScore (filter (\<lambda>a. bucketOf tz now a = time pt) news)))
                    (of_nat (max 1 (articles pt))))
     \<and> (\<exists>g. \<forall>a \<in> set news. \<forall>b \<in> set news.
           bucketOf tz now a = bucketOf tz now b
           \<longleftrightarrow> (g - publishedAt a) div 10800000 = (g - publishedAt b) div 10800000)
     \<and> (\<forall>a \<in> set news. \<forall>b \<in> set news.
           \<bar>publishedAt a - publishedAt b\<bar> \<ge> 10800000
           \<longrightarrow> bucketOf tz now a \<noteq> bucketOf tz now b)"
proof -
  let ?td = "trendData (analyzeSentiment cache tz now symb news ''24h'')"
  let ?gs = "timeGroups ''24h'' tz now news"
  have td: "?td = trendPoints ?gs"
    using assms(1,2) by (simp add: analyzeSentiment_def Let_def)
  have b: "bucketOf tz now = (\<lambda>a. periodStartEpoch ''24h'' tz now (publishedAt a))"
    by (simp add: bucketOf_def fun_eq_iff)
  have 1: "sorted (map time ?td) \<and> distinct (map time ?td)"
    unfolding td by (rule trendPoints_ordered [OF timeGroups_distinct])
  have "set (map time ?td) = set (map fst ?gs)"
    unfolding td trendPoints_time by simp
  then have 2: "time ` set ?td = bucketOf tz now ` set news"
    using timeGroups_keys [of "''24h''" tz now news] by (simp add: b)
  have 3: "articles pt = length (filter (\<lambda>a. bucketOf tz now a = time pt) news) \<and> 0 < articles pt
      \<and> sentiment pt =
          fdiv (sumScores (map sentimentScore (filter (\<lambda>a. bucketOf tz now a = time pt) news)))
               (of_nat (max 1 (articles pt)))"
    if "pt \<in> set ?td" for pt
  proof -
    from that obtain as where "(time pt, as) \<in> set ?gs" and l: "articles pt = length as"
      and m: "sentiment pt = fdiv (sumScores (map sentimentScore as)) (of_nat (max 1 (length as)))"
      unfolding td using trendPoints_member by blast
    from timeGroups_members [OF this(1)] show ?thesis by (auto simp: l m b)
  qed
  have eq: "bucketOf tz now a = bucketOf tz now b
      \<longleftrightarrow> (now - publishedAt a) div 10800000 = (now - publishedAt b) div 10800000"
    if "a \<in> set news" "b \<in> set news" for a b
    using that assms(3)
    by (simp add: bucketOf_def periodStartEpoch_24h)
  have 4: "\<exists>g. \<forall>a \<in> set news. \<forall>b \<in> set news.
           bucketOf tz now a = bucketOf tz now b
           \<longleftrightarrow> (g - publishedAt a) div 10800000 = (g - publishedAt b) div 10800000"
    using eq by blast
  have 5: "bucketOf tz now a \<noteq> bucketOf tz now b"
    if "a \<in> set news" "b \<in> set news" "\<bar>publishedAt a - publishedAt b\<bar> \<ge> 10800000" for a b
  proof
    assume "bucketOf tz now a = bucketOf tz now b"
    with eq [OF that(1,2)] have "(now - publishedAt a) div 10800000 = (now - publishedAt b) div 10800000"
      by simp
    from div_far_apart [OF this] that(3) show False by linarith
  qed
  show ?thesis
    using 1 2 3 4 5 by blast
qed

lemma anchor_eval:
  "setHours 0 1699996200000 (getHours 0 1699996200000 - getHours 0 1699996200000 mod 3)
     = 1699995600000"
  by (simp add: setHours_def getHours_def localMidnight_def)

lemma bucket_eval:
  "periodStartEpoch ''24h'' 0 1699996200000 1699992000000 = 1699995600000"
  "periodStartEpoch ''24h'' 0 1699996200000 1699988400000 = 1699995600000"
  "periodStartEpoch ''24h'' 0 1699996200000 1699977600000 = 1699984800000"
  "periodStartEpoch ''24h'' 0 1699996200000 1699987200000 = 1699995600000"
  "periodStartEpoch ''24h'' 0 1699996200000 1699983600000 = 1699984800000"
  using periodStartEpoch_24h [of 1699996200000 _ 0] by (simp_all add: anchor_eval)

lemma article_publishedAt: "publishedAt (article c sc t) = t"
  by (simp add: article_def)

lemma threeTimed_trend:
  "map articles (trendData (analyzeSentiment Map.empty 0 1699996200000 ''AAPL'' threeTimed ''24h''))
     = [1, 2]"
proof -
  have "trendData (analyzeSentiment Map.empty 0 1699996200000 ''AAPL'' threeTimed ''24h'')
      = trendPoints (timeGroups ''24h'' 0 1699996200000 threeTimed)"
    by (simp add: analyzeSentiment_def getCachedData_def Let_def threeTimed_def)
  moreover have "map fst (timeGroups ''24h'' 0 1699996200000 threeTimed)
      = [1699995600000, 1699984800000]
    \<and> map (length \<circ> snd) (timeGroups ''24h'' 0 1699996200000 threeTimed) = [2, 1]"
    by (simp add: timeGroups_def threeTimed_def article_publishedAt bucket_eval)
  ultimately show ?thesis
    by (auto simp: trendPoints_def Cons_eq_map_conv case_prod_beta)
qed

theorem trend_buckets_24h_witness:
  "map articles (trendData (analyzeSentiment Map.empty 0 1699996200000 ''AAPL'' threeTimed ''24h''))
     = [1, 2]
   \<and> sorted (map time (trendData (analyzeSentiment Map.empty 0 1699996200000 ''AAPL'' threeTimed ''24h'')))
   \<and> distinct (map time (trendData (analyzeSentiment Map.empty 0 1699996200000 ''AAPL'' threeTimed ''24h'')))
   \<and> publishedAt (threeTimed ! 0) - publishedAt (threeTimed ! 1) = 3600000
   \<and> bucketOf 0 1699996200000 (threeTimed ! 0) = bucketOf 0 1699996200000 (threeTimed ! 1)
   \<and> publishedAt (threeTimed ! 0) - publishedAt (threeTimed ! 2) = 14400000
   \<and> bucketOf 0 1699996200000 (threeTimed ! 0) \<noteq> bucketOf 0 1699996200000 (threeTimed ! 2)"
proof -
  have ne: "threeTimed \<noteq> []" by (simp add: threeTimed_def)
  have miss: "getCachedData (Map.empty :: string \<rightharpoonup> SentimentData CacheItem) 1699996200000
          (''sentiment_'' @ ''AAPL'' @ ''_'' @ ''24h'') = None"
    by (simp add: getCachedData_def)
  have range: "\<forall>a \<in> set threeTimed. \<bar>1699996200000 - publishedAt a\<bar> < 2 ^ 51"
    by (simp add: threeTimed_def article_publishedAt)
  have mem: "threeTimed ! 0 \<in> set threeTimed" "threeTimed ! 2 \<in> set threeTimed"
    by (simp_all add: threeTimed_def)
  have far: "\<bar>publishedAt (threeTimed ! 0) - publishedAt (threeTimed ! 2)\<bar> \<ge> 10800000"
    by (simp add: threeTimed_def article_publishedAt)
  from trend_buckets_24h [OF ne miss range, of 0] mem far
  have "sorted (map time (trendData (analyzeSentiment Map.empty 0 1699996200000 ''AAPL'' threeTimed ''24h'')))
      \<and> distinct (map time (trendData (analyzeSentiment Map.empty 0 1699996200000 ''AAPL'' threeTimed ''24h'')))
      \<and> bucketOf 0 1699996200000 (threeTimed ! 0) \<noteq> bucketOf 0 1699996200000 (threeTimed ! 2)"
    by blast
  moreover have "bucketOf 0 1699996200000 (threeTimed ! 0) = bucketOf 0 1699996200000 (threeTimed ! 1)"
    by (simp add: bucketOf_def threeTimed_def article_publishedAt bucket_eval)
  moreover have "publishedAt (threeTimed ! 0) - publishedAt (threeTimed ! 1) = 3600000"
    "publishedAt (threeTimed ! 0) - publishedAt (threeTimed ! 2) = 14400000"
    by (simp_all add: threeTimed_def article_publishedAt)
  ultimately show ?thesis
    using threeTimed_trend by blast
qed

text \<open>
  C6, as the claim states it, fails: at 21:10 UTC the articles published at 18:40 and 17:40 UTC
  are 1 hour apart, they lie on either side of 18:00 UTC, and the trend has two points with one
  article each.
\<close>

theorem trend_buckets_hour_apart_counterexample:
  "publishedAt (hourApart ! 0) - publishedAt (hourApart ! 1) = 3600000
   \<and> publishedAt (hourApart ! 1) < 1699984800000
   \<and> 1699984800000 \<le> publishedAt (hourApart ! 0)
   \<and> map articles (trendData (analyzeSentiment Map.empty 0 1699996200000 ''AAPL'' hourApart ''24h''))
       = [1, 1]"
proof -
  have "trendData (analyzeSentiment Map.empty 0 1699996200000 ''AAPL'' hourApart ''24h'')
      = trendPoints (timeGroups ''24h'' 0 1699996200000 hourApart)"
    by (simp add: analyzeSentiment_def getCachedData_def Let_def hourApart_def)
  moreover have "map fst (timeGroups ''24h'' 0 1699996200000 hourApart)
      = [1699995600000, 1699984800000]
    \<and> map (length \<circ> snd) (timeGroups ''24h'' 0 1699996200000 hourApart) = [1, 1]"
    by (simp add: timeGroups_def hourApart_def article_publishedAt bucket_eval)
  ultimately have "map articles
      (trendData (analyzeSentiment Map.empty 0 1699996200000 ''AAPL'' hourApart ''24h'')) = [1, 1]"
    by (auto simp: trendPoints_def Cons_eq_map_conv case_prod_beta)
  then show ?thesis
    by (simp add: hourApart_def article_publishedAt)
qed

end
